theory Spec2Isabelle
  imports Complex_Main "HOL-Library.Sublist"
begin

section \<open>Data model of the Twitter Space client (spaces.ts)\<close>

text \<open>
  The class \<^verbatim>\<open>TwitterSpaceClient\<close> is modelled as a record of its fields. Numbers of the
  source are integers here (timestamps in milliseconds, counts, configured durations),
  except \<open>maxSpeakers\<close>: the constructor keeps whatever number the settings give, the code
  compares it with lengths, and a fraction changes which comparisons hold, so it is a
  rational. An optional field is an \<open>option\<close>, with \<open>None\<close> for \<^verbatim>\<open>undefined\<close> and
  \<^verbatim>\<open>null\<close>.
  The methods embedded are the constructor, \<^verbatim>\<open>shouldLaunchSpace\<close>, \<^verbatim>\<open>startSpace\<close>,
  \<^verbatim>\<open>manageCurrentSpace\<close>, \<^verbatim>\<open>acceptSpeakersFromQueueIfNeeded\<close>, \<^verbatim>\<open>handleSpeakerRequest\<close>,
  \<^verbatim>\<open>acceptSpeaker\<close>, \<^verbatim>\<open>removeSpeaker\<close>, \<^verbatim>\<open>kickExtraSpeakers\<close>, \<^verbatim>\<open>stopSpace\<close>,
  \<^verbatim>\<open>joinSpace\<close> and \<^verbatim>\<open>waitForApproval\<close>, and the handler of the idle timeout. The timer
  routine, the choice of a topic and the handler of SIGINT are not part of the model.
\<close>

datatype SpaceActivity = HOSTING | PARTICIPATING | IDLE

record TwitterSpaceDecisionOptions =
  maxSpeakers :: "rat option"
  typicalDurationMinutes :: "int option"
  idleKickTimeoutMs :: "int option"
  minIntervalBetweenSpacesMinutes :: "int option"
  enableIdleMonitor :: "bool option"
  enableSpaceHosting :: bool
  enableRecording :: "bool option"
  speakerMaxDurationMs :: "int option"

text \<open>
  The settings block \<^verbatim>\<open>runtime.character.settings?.twitter?.spaces\<close> the constructor reads:
  every field may be absent.
\<close>

record charSpaces =
  src_maxSpeakers :: "rat option"
  src_typicalDurationMinutes :: "int option"
  src_idleKickTimeoutMs :: "int option"
  src_minIntervalBetweenSpacesMinutes :: "int option"
  src_enableIdleMonitor :: "bool option"
  src_enableSpaceHosting :: "bool option"
  src_enableRecording :: "bool option"
  src_speakerMaxDurationMs :: "int option"

record SpeakerRequest =
  userId :: string
  sessionUUID :: string
  username :: string

record CurrentSpeakerState = SpeakerRequest +
  startTime :: int

record SpaceConfig =
  cfg_record :: "bool option"
  cfg_mode :: string
  cfg_title :: string
  cfg_description :: string
  cfg_languages :: "string list"

text \<open>What \<^verbatim>\<open>scraper.getAudioSpaceById\<close> resolves to; every level may be missing.\<close>

datatype Participants =
  Participants (speakers: "string list option") (listeners: "string list option")

datatype AudioSpace = AudioSpace (participants: "Participants option")

datatype Space = Space
datatype SpaceParticipant = SpaceParticipant
datatype plugin = SttTtsPlugin | IdleMonitorPlugin int int

subsection \<open>The outside world\<close>

text \<open>
  Every call that leaves the class (the room handle, the participant handle, the scraper,
  \<^verbatim>\<open>speakFiller\<close>, the clock) is recorded in \<open>trace\<close>. Whether an awaited call resolves or
  rejects, and what it returns, is read from a \<open>world\<close> at the current \<open>tick\<close>, which every
  awaited call and every clock read advances: a world fixes the outcome of the n-th
  interaction for every call it may be, so all sequences of outcomes are covered.
\<close>

datatype call =
    GetAudioSpaceById string
  | ApproveSpeaker string string
  | RemoveSpeaker string
  | SpaceStop
  | SpaceInitialize SpaceConfig
  | SpaceUse plugin
  | SpaceOn string
  | SendTweet string
  | SpeakFiller string "int option"
  | ProcessOn string
  | JoinAsListener string
  | RequestSpeaker
  | CancelSpeakerRequest
  | BecomeSpeaker
  | ParticipantUse plugin
  | ParticipantOn string
  | ParticipantOff string

datatype exn = Rejected call | TypeError | ApprovalTimeout int | NeverSettles

datatype 'a outcome = Returns 'a | Throws exn

record world =
  now :: "nat \<Rightarrow> int"
  succeeds :: "nat \<Rightarrow> call \<Rightarrow> bool"
  audioSpaceAt :: "nat \<Rightarrow> AudioSpace option"
  broadcastAt :: "nat \<Rightarrow> string \<times> string"
  requestAt :: "nat \<Rightarrow> string"
  acceptedBeforeTimeout :: "nat \<Rightarrow> string list"
  acceptedAfterTimeout :: "nat \<Rightarrow> string list"
  textToSpeechModel :: bool
  transcriptionModel :: bool

record client =
  currentSpace :: "Space option"
  spaceId :: "string option"
  startedAt :: "int option"
  lastSpaceEndedAt :: "int option"
  sttTtsPlugin :: "plugin option"
  spaceStatus :: SpaceActivity
  spaceParticipant :: "SpaceParticipant option"
  activeSpeakers :: "CurrentSpeakerState list"
  speakerQueue :: "SpeakerRequest list"
  decisionOptions :: TwitterSpaceDecisionOptions
  tick :: nat
  trace :: "call list"

type_synonym 'a prog = "client \<Rightarrow> 'a outcome \<times> client"

definition returns :: "'a \<Rightarrow> 'a prog" where
  "returns a s = (Returns a, s)"

definition throws :: "exn \<Rightarrow> 'a prog" where
  "throws e s = (Throws e, s)"

definition then_do :: "'a prog \<Rightarrow> ('a \<Rightarrow> 'b prog) \<Rightarrow> 'b prog" where
  "then_do m f s = (case m s of (Returns a, s') \<Rightarrow> f a s' | (Throws e, s') \<Rightarrow> (Throws e, s'))"

definition try_catch :: "'a prog \<Rightarrow> (exn \<Rightarrow> 'a prog) \<Rightarrow> 'a prog" where
  "try_catch m h s = (case m s of (Returns a, s') \<Rightarrow> (Returns a, s') | (Throws e, s') \<Rightarrow> h e s')"

definition modify :: "(client \<Rightarrow> client) \<Rightarrow> unit prog" where
  "modify f s = (Returns (), f s)"

definition record_call :: "call \<Rightarrow> client \<Rightarrow> client" where
  "record_call c s = s\<lparr>trace := trace s @ [c]\<rparr>"

definition await :: "world \<Rightarrow> call \<Rightarrow> unit prog" where
  "await w c s =
     (if succeeds w (tick s) c then Returns () else Throws (Rejected c),
      (record_call c s)\<lparr>tick := Suc (tick s)\<rparr>)"

definition date_now :: "world \<Rightarrow> int prog" where
  "date_now w s = (Returns (now w (tick s)), s\<lparr>tick := Suc (tick s)\<rparr>)"

text \<open>The operator \<^verbatim>\<open>??\<close>: the right operand only for \<^verbatim>\<open>null\<close> and \<^verbatim>\<open>undefined\<close>.\<close>

definition nullish :: "'a option \<Rightarrow> 'a \<Rightarrow> 'a" where
  "nullish v d = (case v of None \<Rightarrow> d | Some x \<Rightarrow> x)"

text \<open>\<^verbatim>\<open>xs.splice(i, 1)\<close> and \<^verbatim>\<open>xs.slice(start)\<close> and \<^verbatim>\<open>xs.findIndex(p)\<close> of JavaScript arrays.\<close>

definition splice1 :: "nat \<Rightarrow> 'a list \<Rightarrow> 'a list" where
  "splice1 i xs = take i xs @ drop (Suc i) xs"

definition slice_from :: "int \<Rightarrow> 'a list \<Rightarrow> 'a list" where
  "slice_from start xs =
     (if start < 0 then drop (nat (max (int (length xs) + start) 0)) xs
      else drop (nat start) xs)"

text \<open>An index argument that is not an integer is truncated towards zero.\<close>

definition toInteger :: "rat \<Rightarrow> int" where
  "toInteger q = (if q < 0 then \<lceil>q\<rceil> else \<lfloor>q\<rfloor>)"

fun findIndex :: "('a \<Rightarrow> bool) \<Rightarrow> 'a list \<Rightarrow> int" where
  "findIndex p [] = - 1"
| "findIndex p (x # xs) =
     (if p x then 0 else (let r = findIndex p xs in if r = - 1 then - 1 else r + 1))"

text \<open>
  A world in which every call succeeds, the room reports no speaker and no listener, the
  clock reads \<open>1000 + n\<close> at interaction \<open>n\<close>, and no approval event is ever emitted.
\<close>

definition quietWorld :: world where
  "quietWorld =
     \<lparr>now = (\<lambda>n. 1000 + int n), succeeds = (\<lambda>n c. True),
      audioSpaceAt = (\<lambda>n. Some (AudioSpace (Some (Participants (Some []) (Some []))))),
      broadcastAt = (\<lambda>n. (''1OdKrXYZ'', ''https://x.com/i/broadcasts/1OdKrXYZ'')),
      requestAt = (\<lambda>n. ''uuid-1''),
      acceptedBeforeTimeout = (\<lambda>n. []), acceptedAfterTimeout = (\<lambda>n. []),
      textToSpeechModel = False, transcriptionModel = False\<rparr>"

text \<open>Two speaker requests and a session configuration used in the examples.\<close>

definition alice :: SpeakerRequest where
  "alice = \<lparr>userId = ''1001'', sessionUUID = ''uuid-a'', username = ''alice''\<rparr>"

definition bob :: SpeakerRequest where
  "bob = \<lparr>userId = ''1002'', sessionUUID = ''uuid-b'', username = ''bob''\<rparr>"

definition techChat :: SpaceConfig where
  "techChat =
     \<lparr>cfg_record = Some True, cfg_mode = ''INTERACTIVE'', cfg_title = ''Random Tech Chat'',
      cfg_description = ''Discussion about Random Tech Chat'', cfg_languages = [''en'']\<rparr>"

section \<open>The constructor\<close>

definition resolveDecisionOptions :: "charSpaces option \<Rightarrow> TwitterSpaceDecisionOptions" where
  "resolveDecisionOptions settings =
     (let charSpaces = nullish settings
            \<lparr>src_maxSpeakers = None, src_typicalDurationMinutes = None,
             src_idleKickTimeoutMs = None, src_minIntervalBetweenSpacesMinutes = None,
             src_enableIdleMonitor = None, src_enableSpaceHosting = None,
             src_enableRecording = None, src_speakerMaxDurationMs = None\<rparr>
      in \<lparr>maxSpeakers = Some (nullish (src_maxSpeakers charSpaces) 1),
          typicalDurationMinutes = Some (nullish (src_typicalDurationMinutes charSpaces) 30),
          idleKickTimeoutMs = Some (nullish (src_idleKickTimeoutMs charSpaces) (5 * 60000)),
          minIntervalBetweenSpacesMinutes =
            Some (nullish (src_minIntervalBetweenSpacesMinutes charSpaces) 60),
          enableIdleMonitor = Some (src_enableIdleMonitor charSpaces \<noteq> Some False),
          enableSpaceHosting =
            (case src_enableSpaceHosting charSpaces of Some True \<Rightarrow> True | _ \<Rightarrow> False),
          enableRecording = Some (src_enableRecording charSpaces \<noteq> Some False),
          speakerMaxDurationMs = Some (nullish (src_speakerMaxDurationMs charSpaces) (4 * 60000))\<rparr>)"

definition constructor :: "charSpaces option \<Rightarrow> client" where
  "constructor settings =
     \<lparr>currentSpace = None, spaceId = None, startedAt = None, lastSpaceEndedAt = None,
      sttTtsPlugin = None, spaceStatus = IDLE, spaceParticipant = None,
      activeSpeakers = [], speakerQueue = [],
      decisionOptions = resolveDecisionOptions settings, tick = 0, trace = []\<rparr>"

section \<open>Speaker admission\<close>

definition speakFiller :: "world \<Rightarrow> string \<Rightarrow> int option \<Rightarrow> unit prog" where
  "speakFiller w kind delayMs = await w (SpeakFiller kind delayMs)"

definition acceptSpeaker :: "world \<Rightarrow> SpeakerRequest \<Rightarrow> unit prog" where
  "acceptSpeaker w req s =
     (if currentSpace s = None then returns () s
      else try_catch
             (then_do (await w (ApproveSpeaker (userId req) (sessionUUID req))) (\<lambda>_.
              then_do (date_now w) (\<lambda>t.
              modify (\<lambda>c. c\<lparr>activeSpeakers := activeSpeakers c @
                [\<lparr>userId = userId req, sessionUUID = sessionUUID req,
                  username = username req, startTime = t\<rparr>]\<rparr>))))
             (\<lambda>err. returns ()) s)"

definition removeSpeaker :: "world \<Rightarrow> string \<Rightarrow> unit prog" where
  "removeSpeaker w uid s =
     (if currentSpace s = None then returns () s
      else try_catch (await w (RemoveSpeaker uid)) (\<lambda>err. returns ()) s)"

text \<open>
  Step 1 of \<^verbatim>\<open>manageCurrentSpace\<close>: the loop \<^verbatim>\<open>for (i = length - 1; i >= 0; i--)\<close>.
  The counter of \<open>evictLoop\<close> is \<open>i + 1\<close>. Reading past the end of the array gives
  \<^verbatim>\<open>undefined\<close>, whose \<^verbatim>\<open>startTime\<close> is a TypeError.
\<close>

definition evictStep :: "world \<Rightarrow> int \<Rightarrow> int \<Rightarrow> nat \<Rightarrow> unit prog" where
  "evictStep w maxDur now_ms i s =
     (if i < length (activeSpeakers s) then
        (let speaker = activeSpeakers s ! i;
             elapsed = now_ms - startTime speaker
         in if elapsed > maxDur then
              then_do (removeSpeaker w (userId speaker)) (\<lambda>_.
              then_do (modify (\<lambda>c. c\<lparr>activeSpeakers := splice1 i (activeSpeakers c)\<rparr>)) (\<lambda>_.
              speakFiller w ''SPEAKER_LEFT'' None)) s
            else returns () s)
      else throws TypeError s)"

fun evictLoop :: "world \<Rightarrow> int \<Rightarrow> int \<Rightarrow> nat \<Rightarrow> unit prog" where
  "evictLoop w maxDur now_ms 0 s = returns () s"
| "evictLoop w maxDur now_ms (Suc i) s =
     (case evictStep w maxDur now_ms i s of
        (Returns _, s') \<Rightarrow> evictLoop w maxDur now_ms i s'
      | (Throws e, s') \<Rightarrow> (Throws e, s'))"

definition evictExpiredSpeakers :: "world \<Rightarrow> int \<Rightarrow> int \<Rightarrow> unit prog" where
  "evictExpiredSpeakers w maxDur now_ms s =
     evictLoop w maxDur now_ms (length (activeSpeakers s)) s"

text \<open>
  The body of the loop of \<^verbatim>\<open>acceptSpeakersFromQueueIfNeeded\<close>: \<^verbatim>\<open>shift()\<close> takes the head
  of the queue (\<^verbatim>\<open>undefined\<close> on an empty queue, which the \<^verbatim>\<open>if (nextReq)\<close> skips).
\<close>

definition acceptNext :: "world \<Rightarrow> unit prog" where
  "acceptNext w s =
     (case speakerQueue s of
        [] \<Rightarrow> returns () s
      | nextReq # rest \<Rightarrow>
          then_do (modify (\<lambda>c. c\<lparr>speakerQueue := tl (speakerQueue c)\<rparr>)) (\<lambda>_.
          then_do (speakFiller w ''PRE_ACCEPT'' None) (\<lambda>_.
          acceptSpeaker w nextReq)) s)"

function acceptLoop :: "world \<Rightarrow> rat \<Rightarrow> unit prog" where
  "acceptLoop w ms s =
     (if length (speakerQueue s) > 0 \<and> of_nat (length (activeSpeakers s)) < ms then
        (case acceptNext w s of
           (Returns _, s') \<Rightarrow> acceptLoop w ms s'
         | (Throws e, s') \<Rightarrow> (Throws e, s'))
      else returns () s)"
  by pat_completeness auto
termination
proof (relation "measure (\<lambda>(w, ms, s). length (speakerQueue s))", goal_cases)
  case 1
  show ?case by simp
next
  case (2 w ms s x y x1)
  have "snd (acceptSpeaker w r c) = c' \<Longrightarrow> speakerQueue c' = speakerQueue c" for r c c'
    by (auto simp: acceptSpeaker_def try_catch_def then_do_def await_def record_call_def
        date_now_def modify_def returns_def)
  then have "speakerQueue (snd (acceptNext w s)) = tl (speakerQueue s)"
    by (cases "speakerQueue s")
       (simp_all add: acceptNext_def then_do_def modify_def speakFiller_def await_def
          record_call_def returns_def)
  with 2 have "speakerQueue y = tl (speakerQueue s)"
    by (metis snd_conv)
  with 2 show ?case
    by (cases "speakerQueue s") simp_all
qed

declare acceptLoop.simps [simp del]

definition acceptSpeakersFromQueueIfNeeded :: "world \<Rightarrow> unit prog" where
  "acceptSpeakersFromQueueIfNeeded w s =
     acceptLoop w (nullish (maxSpeakers (decisionOptions s)) 1) s"

definition getAudioSpaceById :: "world \<Rightarrow> string \<Rightarrow> (AudioSpace option) prog" where
  "getAudioSpaceById w sid s =
     (if succeeds w (tick s) (GetAudioSpaceById sid) then Returns (audioSpaceAt w (tick s))
      else Throws (Rejected (GetAudioSpaceById sid)),
      (record_call (GetAudioSpaceById sid) s)\<lparr>tick := Suc (tick s)\<rparr>)"

text \<open>\<^verbatim>\<open>audioSpace?.participants?.speakers || []\<close>\<close>

definition janusSpeakersOf :: "AudioSpace option \<Rightarrow> string list" where
  "janusSpeakersOf audioSpace =
     (case audioSpace of
        Some (AudioSpace (Some (Participants (Some sps) _))) \<Rightarrow> sps
      | _ \<Rightarrow> [])"

text \<open>
  \<^verbatim>\<open>handleSpeakerRequest\<close> after its awaited room query has resolved with the list
  \<open>janusSpeakers\<close>.
\<close>

definition admitOrQueue :: "world \<Rightarrow> SpeakerRequest \<Rightarrow> string list \<Rightarrow> unit prog" where
  "admitOrQueue w req janusSpeakers c =
     (if of_nat (length janusSpeakers) < nullish (maxSpeakers (decisionOptions c)) 1
      then then_do (speakFiller w ''PRE_ACCEPT'' None) (\<lambda>_. acceptSpeaker w req) c
      else modify (\<lambda>c'. c'\<lparr>speakerQueue := speakerQueue c' @ [req]\<rparr>) c)"

definition handleSpeakerRequest :: "world \<Rightarrow> SpeakerRequest \<Rightarrow> unit prog" where
  "handleSpeakerRequest w req s =
     (case spaceId s of
        None \<Rightarrow> returns () s
      | Some sid \<Rightarrow>
          if sid = [] \<or> currentSpace s = None then returns () s
          else then_do (getAudioSpaceById w sid) (\<lambda>audioSpace.
                 let janusSpeakers = janusSpeakersOf audioSpace
                 in admitOrQueue w req janusSpeakers) s)"

definition kickOne :: "world \<Rightarrow> string \<Rightarrow> unit prog" where
  "kickOne w sp =
     then_do (removeSpeaker w sp) (\<lambda>_.
       modify (\<lambda>c. let idx = findIndex (\<lambda>a. userId a = sp) (activeSpeakers c)
                   in if idx \<noteq> - 1 then c\<lparr>activeSpeakers := splice1 (nat idx) (activeSpeakers c)\<rparr>
                      else c))"

fun kickLoop :: "world \<Rightarrow> string list \<Rightarrow> unit prog" where
  "kickLoop w [] s = returns () s"
| "kickLoop w (sp # extras) s =
     (case kickOne w sp s of
        (Returns _, s') \<Rightarrow> kickLoop w extras s'
      | (Throws e, s') \<Rightarrow> (Throws e, s'))"

text \<open>\<^verbatim>\<open>speakers.slice(ms)\<close> on an undefined \<^verbatim>\<open>speakers\<close> is a TypeError.\<close>

definition kickExtraSpeakers :: "world \<Rightarrow> string list option \<Rightarrow> unit prog" where
  "kickExtraSpeakers w sps s =
     (if currentSpace s = None then returns () s
      else (case sps of
              None \<Rightarrow> throws TypeError s
            | Some l \<Rightarrow>
                kickLoop w
                  (slice_from (toInteger (nullish (maxSpeakers (decisionOptions s)) 1)) l) s))"

section \<open>Stopping, launching and managing a session\<close>

definition stopSpace :: "world \<Rightarrow> unit prog" where
  "stopSpace w s =
     (if currentSpace s = None \<or> spaceStatus s = IDLE then returns () s
      else then_do (try_catch (await w SpaceStop) (\<lambda>err. returns ())) (\<lambda>_.
           then_do (date_now w) (\<lambda>t.
           modify (\<lambda>c. c\<lparr>spaceStatus := IDLE, spaceId := None, currentSpace := None,
                         startedAt := None, lastSpaceEndedAt := Some t,
                         activeSpeakers := [], speakerQueue := []\<rparr>))) s)"

text \<open>\<^verbatim>\<open>if (this.lastSpaceEndedAt)\<close> tests the truthiness of a number.\<close>

definition truthy_number :: "int option \<Rightarrow> bool" where
  "truthy_number v = (case v of None \<Rightarrow> False | Some n \<Rightarrow> n \<noteq> 0)"

definition shouldLaunchSpace :: "world \<Rightarrow> bool prog" where
  "shouldLaunchSpace w =
     then_do (date_now w) (\<lambda>now_ms s.
       if truthy_number (lastSpaceEndedAt s) then
         (let minIntervalMs =
                nullish (minIntervalBetweenSpacesMinutes (decisionOptions s)) 60 * 60000
          in if now_ms - nullish (lastSpaceEndedAt s) 0 < minIntervalMs then returns False s
             else returns True s)
       else returns True s)"

text \<open>
  Step 4 of \<^verbatim>\<open>manageCurrentSpace\<close>: \<^verbatim>\<open>elapsedMinutes\<close> is a fraction, and
  \<^verbatim>\<open>this.startedAt || 0\<close> reads an undefined start as 0.
\<close>

definition elapsedMinutes :: "int \<Rightarrow> int option \<Rightarrow> rat" where
  "elapsedMinutes now_ms started = of_int (now_ms - nullish started 0) / 60000"

definition stopCondition :: "rat \<Rightarrow> int \<Rightarrow> nat \<Rightarrow> nat \<Rightarrow> bool" where
  "stopCondition elapsed typical numSpeakers totalListeners =
     (elapsed > of_int typical \<or> (numSpeakers = 0 \<and> totalListeners = 0 \<and> elapsed > 5))"

text \<open>\<^verbatim>\<open>xs?.length || 0\<close>\<close>

definition lengthOr0 :: "'a list option \<Rightarrow> nat" where
  "lengthOr0 xs = (case xs of None \<Rightarrow> 0 | Some l \<Rightarrow> length l)"

definition manageBody :: "world \<Rightarrow> string \<Rightarrow> unit prog" where
  "manageBody w sid =
     then_do (getAudioSpaceById w sid) (\<lambda>audioSpace.
       case audioSpace of
         None \<Rightarrow> throws TypeError
       | Some (AudioSpace None) \<Rightarrow> throws TypeError
       | Some (AudioSpace (Some parts)) \<Rightarrow>
           (let numSpeakers = lengthOr0 (speakers parts);
                totalListeners = lengthOr0 (listeners parts)
            in then_do (date_now w) (\<lambda>now_ms.
               then_do (\<lambda>c. evictExpiredSpeakers w
                               (nullish (speakerMaxDurationMs (decisionOptions c)) 240000)
                               now_ms c) (\<lambda>_.
               then_do (acceptSpeakersFromQueueIfNeeded w) (\<lambda>_.
               then_do (\<lambda>c. if of_nat numSpeakers > nullish (maxSpeakers (decisionOptions c)) 1
                             then kickExtraSpeakers w (speakers parts) c
                             else returns () c) (\<lambda>_ c.
                 if stopCondition (elapsedMinutes now_ms (startedAt c))
                      (nullish (typicalDurationMinutes (decisionOptions c)) 30)
                      numSpeakers totalListeners
                 then then_do (speakFiller w ''CLOSING'' (Some 4000)) (\<lambda>_. stopSpace w) c
                 else returns () c))))))"

definition manageCurrentSpace :: "world \<Rightarrow> unit prog" where
  "manageCurrentSpace w s =
     (case spaceId s of
        None \<Rightarrow> returns () s
      | Some sid \<Rightarrow>
          if sid = [] \<or> currentSpace s = None then returns () s
          else try_catch (manageBody w sid) (\<lambda>err. returns ()) s)"

text \<open>The handler of the room's \<^verbatim>\<open>idleTimeout\<close> event.\<close>

definition onIdleTimeout :: "world \<Rightarrow> unit prog" where
  "onIdleTimeout w = then_do (speakFiller w ''IDLE_ENDING'' None) (\<lambda>_. stopSpace w)"

text \<open>\<^verbatim>\<open>s.replace(pat, rep)\<close> with a string pattern replaces the first occurrence.\<close>

fun replaceFirst :: "string \<Rightarrow> string \<Rightarrow> string \<Rightarrow> string" where
  "replaceFirst pat rep [] = (if pat = [] then rep else [])"
| "replaceFirst pat rep (c # cs) =
     (if take (length pat) (c # cs) = pat then rep @ drop (length pat) (c # cs)
      else c # replaceFirst pat rep cs)"

definition initialize :: "world \<Rightarrow> SpaceConfig \<Rightarrow> (string \<times> string) prog" where
  "initialize w config s =
     (if succeeds w (tick s) (SpaceInitialize config) then Returns (broadcastAt w (tick s))
      else Throws (Rejected (SpaceInitialize config)),
      (record_call (SpaceInitialize config) s)\<lparr>tick := Suc (tick s)\<rparr>)"

text \<open>
  The \<^verbatim>\<open>try\<close> block of \<^verbatim>\<open>startSpace\<close>; \<open>broadcastInfo\<close> is the pair of \<^verbatim>\<open>room_id\<close> and
  \<^verbatim>\<open>share_url\<close>. The calls \<^verbatim>\<open>currentSpace.use\<close> are not awaited in the source but may
  throw like any other call.
\<close>

definition startBody :: "world \<Rightarrow> SpaceConfig \<Rightarrow> unit prog" where
  "startBody w config =
     then_do (modify (\<lambda>c. c\<lparr>currentSpace := Some Space, spaceStatus := IDLE,
                            spaceId := None\<rparr>)) (\<lambda>_.
     then_do (date_now w) (\<lambda>t.
     then_do (modify (\<lambda>c. c\<lparr>startedAt := Some t, activeSpeakers := [],
                            speakerQueue := []\<rparr>)) (\<lambda>_.
     then_do (initialize w config) (\<lambda>broadcastInfo.
     then_do (modify (\<lambda>c. c\<lparr>spaceId := Some (fst broadcastInfo)\<rparr>)) (\<lambda>_.
     then_do (if textToSpeechModel w \<and> transcriptionModel w
              then then_do (modify (\<lambda>c. c\<lparr>sttTtsPlugin := Some SttTtsPlugin\<rparr>)) (\<lambda>_.
                     await w (SpaceUse SttTtsPlugin))
              else returns ()) (\<lambda>_.
     then_do (\<lambda>c. if enableIdleMonitor (decisionOptions c) = Some True
                   then await w (SpaceUse (IdleMonitorPlugin
                          (nullish (idleKickTimeoutMs (decisionOptions c)) 60000) 10000)) c
                   else returns () c) (\<lambda>_.
     then_do (modify (\<lambda>c. c\<lparr>spaceStatus := HOSTING\<rparr>)) (\<lambda>_.
     then_do (await w (SendTweet (replaceFirst ''broadcasts'' ''spaces'' (snd broadcastInfo)))) (\<lambda>_.
     then_do (speakFiller w ''WELCOME'' None) (\<lambda>_.
     modify (\<lambda>c. record_call (ProcessOn ''SIGINT'')
                    (record_call (SpaceOn ''idleTimeout'')
                      (record_call (SpaceOn ''speakerRequest'')
                        (record_call (SpaceOn ''occupancyUpdate'') c))))))))))))))"

definition startSpace :: "world \<Rightarrow> SpaceConfig \<Rightarrow> unit prog" where
  "startSpace w config =
     try_catch (startBody w config)
       (\<lambda>error. then_do (modify (\<lambda>c. c\<lparr>spaceStatus := IDLE\<rparr>)) (\<lambda>_. throws error))"

section \<open>Joining a session and waiting for the speaker approval\<close>

text \<open>
  \<^verbatim>\<open>waitForApproval\<close> builds a promise that two callbacks may settle: the handler of
  \<^verbatim>\<open>newSpeakerAccepted\<close>, run for every event emitted while it is registered, and the
  timer, which fires once. The events of a wait are the identifiers emitted before the
  timer fires and those emitted after it. A promise settles once: later calls of
  \<^verbatim>\<open>resolve\<close> or \<^verbatim>\<open>reject\<close> are ignored.
\<close>

datatype promise = Pending | Fulfilled | RejectedWith exn

record waiting =
  resolved :: bool
  listening :: bool
  settled :: promise

definition settle :: "promise \<Rightarrow> waiting \<Rightarrow> waiting" where
  "settle p ws = (if settled ws = Pending then ws\<lparr>settled := p\<rparr> else ws)"

definition participantOn :: "waiting \<times> client \<Rightarrow> waiting \<times> client" where
  "participantOn st =
     ((fst st)\<lparr>listening := True\<rparr>, record_call (ParticipantOn ''newSpeakerAccepted'') (snd st))"

definition participantOff :: "waiting \<times> client \<Rightarrow> waiting \<times> client" where
  "participantOff st =
     ((fst st)\<lparr>listening := False\<rparr>, record_call (ParticipantOff ''newSpeakerAccepted'') (snd st))"

definition approvalHandler ::
  "world \<Rightarrow> string \<Rightarrow> string \<Rightarrow> waiting \<times> client \<Rightarrow> waiting \<times> client" where
  "approvalHandler w uuid evt st =
     (if evt = uuid then
        (let st1 = participantOff ((fst st)\<lparr>resolved := True\<rparr>, snd st)
         in case await w BecomeSpeaker (snd st1) of
              (Returns _, s') \<Rightarrow> (settle Fulfilled (fst st1), s')
            | (Throws err, s') \<Rightarrow> (settle (RejectedWith err) (fst st1), s'))
      else st)"

definition emitAccepted ::
  "world \<Rightarrow> string \<Rightarrow> waiting \<times> client \<Rightarrow> string \<Rightarrow> waiting \<times> client" where
  "emitAccepted w uuid st evt = (if listening (fst st) then approvalHandler w uuid evt st else st)"

definition timerFires :: "int \<Rightarrow> waiting \<times> client \<Rightarrow> waiting \<times> client" where
  "timerFires timeoutMs st =
     (if \<not> resolved (fst st) then
        (let st1 = participantOff st
         in (settle (RejectedWith (ApprovalTimeout timeoutMs)) (fst st1), snd st1))
      else st)"

definition approvalRace ::
  "world \<Rightarrow> string \<Rightarrow> int \<Rightarrow> string list \<Rightarrow> string list \<Rightarrow> client \<Rightarrow> waiting \<times> client" where
  "approvalRace w uuid timeoutMs before after s =
     foldl (emitAccepted w uuid)
       (timerFires timeoutMs
          (foldl (emitAccepted w uuid)
             (participantOn (\<lparr>resolved = False, listening = False, settled = Pending\<rparr>, s))
             before))
       after"

text \<open>
  Awaiting the promise: the value \<open>Throws NeverSettles\<close> stands for a promise that is still
  pending when every event of the wait has been handled.
\<close>

definition waitForApproval :: "world \<Rightarrow> string \<Rightarrow> int option \<Rightarrow> unit prog" where
  "waitForApproval w uuid timeoutMs s =
     (case approvalRace w uuid (nullish timeoutMs 10000)
             (acceptedBeforeTimeout w (tick s)) (acceptedAfterTimeout w (tick s)) s of
        (ws, s') \<Rightarrow>
          (case settled ws of
             Fulfilled \<Rightarrow> (Returns (), s')
           | RejectedWith err \<Rightarrow> (Throws err, s')
           | Pending \<Rightarrow> (Throws NeverSettles, s')))"

definition requestSpeaker :: "world \<Rightarrow> string prog" where
  "requestSpeaker w s =
     (if succeeds w (tick s) RequestSpeaker then Returns (requestAt w (tick s))
      else Throws (Rejected RequestSpeaker),
      (record_call RequestSpeaker s)\<lparr>tick := Suc (tick s)\<rparr>)"

datatype joinResult = JoinedSpace string | JoinNull | JoinUndefined

definition negotiateSpeaker :: "world \<Rightarrow> string \<Rightarrow> unit prog" where
  "negotiateSpeaker w uuid =
     try_catch
       (then_do (waitForApproval w uuid (Some 15000)) (\<lambda>_.
        then_do (modify (\<lambda>c. c\<lparr>sttTtsPlugin := Some SttTtsPlugin\<rparr>)) (\<lambda>_.
        await w (ParticipantUse SttTtsPlugin))))
       (\<lambda>err. try_catch (await w CancelSpeakerRequest) (\<lambda>cancelErr. returns ()))"

definition joinSpace :: "world \<Rightarrow> string \<Rightarrow> joinResult prog" where
  "joinSpace w sid s =
     (if spaceStatus s \<noteq> IDLE then returns JoinNull s
      else then_do
             (modify (\<lambda>c. if spaceParticipant c = None
                           then c\<lparr>spaceParticipant := Some SpaceParticipant\<rparr> else c))
             (\<lambda>_ c.
                if spaceParticipant c \<noteq> None then
                  try_catch
                    (then_do (await w (JoinAsListener sid)) (\<lambda>_.
                     then_do (modify (\<lambda>c'. c'\<lparr>spaceStatus := PARTICIPATING\<rparr>)) (\<lambda>_.
                     then_do (requestSpeaker w) (\<lambda>uuid.
                     then_do (negotiateSpeaker w uuid) (\<lambda>_.
                     returns (JoinedSpace sid))))))
                    (\<lambda>error. returns JoinNull) c
                else returns JoinUndefined c) s)"

section \<open>Sequences of operations\<close>

text \<open>
  An operation runs to its end before the next one starts. What it returns or throws
  goes to its caller (the timer routine, the event emitter); the state it leaves is the
  state the next operation finds.
\<close>

datatype op =
    StartSpace SpaceConfig
  | StopSpace
  | JoinSpace string
  | SpeakerRequestEvent SpeakerRequest
  | IdleTimeoutEvent
  | ManageCurrentSpace
  | AcceptSpeakersFromQueue
  | EvictExpiredSpeakers
  | KickExtraSpeakers "string list option"

fun apply_op :: "world \<Rightarrow> op \<Rightarrow> client \<Rightarrow> client" where
  "apply_op w (StartSpace config) s = snd (startSpace w config s)"
| "apply_op w StopSpace s = snd (stopSpace w s)"
| "apply_op w (JoinSpace sid) s = snd (joinSpace w sid s)"
| "apply_op w (SpeakerRequestEvent req) s = snd (handleSpeakerRequest w req s)"
| "apply_op w IdleTimeoutEvent s = snd (onIdleTimeout w s)"
| "apply_op w ManageCurrentSpace s = snd (manageCurrentSpace w s)"
| "apply_op w AcceptSpeakersFromQueue s = snd (acceptSpeakersFromQueueIfNeeded w s)"
| "apply_op w EvictExpiredSpeakers s =
     snd (then_do (date_now w) (\<lambda>now_ms c.
            evictExpiredSpeakers w (nullish (speakerMaxDurationMs (decisionOptions c)) 240000)
              now_ms c) s)"
| "apply_op w (KickExtraSpeakers sps) s = snd (kickExtraSpeakers w sps s)"

fun run :: "world \<Rightarrow> op list \<Rightarrow> client \<Rightarrow> client list" where
  "run w [] s = []"
| "run w (x # xs) s = apply_op w x s # run w xs (apply_op w x s)"

text \<open>The bound on the local collection of active speakers.\<close>

definition withinCapacity :: "client \<Rightarrow> bool" where
  "withinCapacity s =
     (of_nat (length (activeSpeakers s)) \<le> nullish (maxSpeakers (decisionOptions s)) 1)"

text \<open>
  When a speaker request is handled, the room reports at least as many speakers as the
  local collection holds.
\<close>

definition roomCoversLocal :: "world \<Rightarrow> op \<Rightarrow> client \<Rightarrow> bool" where
  "roomCoversLocal w x s =
     (case x of
        SpeakerRequestEvent req \<Rightarrow>
          length (activeSpeakers s) \<le> length (janusSpeakersOf (audioSpaceAt w (tick s)))
      | _ \<Rightarrow> True)"

fun roomCoversLocalAlong :: "world \<Rightarrow> op list \<Rightarrow> client \<Rightarrow> bool" where
  "roomCoversLocalAlong w [] s = True"
| "roomCoversLocalAlong w (x # xs) s =
     (roomCoversLocal w x s \<and> roomCoversLocalAlong w xs (apply_op w x s))"

text \<open>A client that hosts a session opened at time 1000, with the default options.\<close>

definition hostingClient :: client where
  "hostingClient =
     (constructor None)\<lparr>currentSpace := Some Space, spaceId := Some ''1OdKrXYZ'',
                         startedAt := Some 1000, spaceStatus := HOSTING\<rparr>"

text \<open>The hosting client with one active speaker and one pending request.\<close>

definition busyClient :: client where
  "busyClient =
     hostingClient\<lparr>activeSpeakers :=
                     [\<lparr>userId = ''1001'', sessionUUID = ''uuid-a'', username = ''alice'',
                       startTime = 1010\<rparr>],
                   speakerQueue := [bob]\<rparr>"

text \<open>A world in which every awaited call rejects.\<close>

definition failingWorld :: world where
  "failingWorld = quietWorld\<lparr>succeeds := \<lambda>n c. False\<rparr>"

text \<open>The value a settings block gives for a field: none when the block is absent.\<close>

definition sourceValue :: "(charSpaces \<Rightarrow> 'a option) \<Rightarrow> charSpaces option \<Rightarrow> 'a option" where
  "sourceValue field settings = (case settings of None \<Rightarrow> None | Some cs \<Rightarrow> field cs)"

text \<open>A settings block with the falsy values \<^verbatim>\<open>maxSpeakers: 0\<close> and \<^verbatim>\<open>enableIdleMonitor: false\<close>.\<close>

definition zeroSpeakers :: charSpaces where
  "zeroSpeakers =
     \<lparr>src_maxSpeakers = Some 0, src_typicalDurationMinutes = None,
      src_idleKickTimeoutMs = None, src_minIntervalBetweenSpacesMinutes = None,
      src_enableIdleMonitor = Some False, src_enableSpaceHosting = None,
      src_enableRecording = None, src_speakerMaxDurationMs = None\<rparr>"


text \<open>
  A world like \<open>quietWorld\<close> in which the approval of the request \<open>uuid-1\<close> is emitted
  before the timer fires, after the approval of another request.
\<close>

definition approvingWorld :: world where
  "approvingWorld = quietWorld\<lparr>acceptedBeforeTimeout := \<lambda>n. [''uuid-0'', ''uuid-1'']\<rparr>"

text \<open>
  A world in which the approval arrives in time but \<^verbatim>\<open>becomeSpeaker\<close> and
  \<^verbatim>\<open>cancelSpeakerRequest\<close> reject.
\<close>

definition finalizeFailsWorld :: world where
  "finalizeFailsWorld =
     approvingWorld\<lparr>succeeds := \<lambda>n c. c \<noteq> BecomeSpeaker \<and> c \<noteq> CancelSpeakerRequest\<rparr>"

text \<open>
  Properties of the final state of a program: \<open>preserved P m\<close> says that \<open>m\<close>, started in
  a state with \<open>P\<close>, ends in a state with \<open>P\<close>, whether it returns or throws.
\<close>

definition preserved :: "(client \<Rightarrow> bool) \<Rightarrow> 'a prog \<Rightarrow> bool" where
  "preserved P m = (\<forall>s. P s \<longrightarrow> P (snd (m s)))"

definition capacityBound :: "TwitterSpaceDecisionOptions \<Rightarrow> nat \<Rightarrow> client \<Rightarrow> bool" where
  "capacityBound d n s = (decisionOptions s = d \<and> length (activeSpeakers s) \<le> n)"

text \<open>A number without a fractional part.\<close>

definition wholeNumber :: "rat \<Rightarrow> bool" where
  "wholeNumber q = (of_int \<lfloor>q\<rfloor> = q)"

text \<open>
  Two \<^verbatim>\<open>speakerRequest\<close> events whose handlers overlap. The listener is an async function
  that the emitter does not await, so the handler of the second event can start while the
  first is suspended at its room query: here both handlers pass the guard and both queries
  settle before either handler goes on. A handler whose query rejected ends there; what a
  handler returns or throws goes to the emitter, and the state it leaves is kept.
\<close>

definition resumeRequest ::
  "world \<Rightarrow> SpeakerRequest \<Rightarrow> AudioSpace option outcome \<Rightarrow> unit prog" where
  "resumeRequest w req queried =
     (case queried of
        Returns audioSpace \<Rightarrow> admitOrQueue w req (janusSpeakersOf audioSpace)
      | Throws e \<Rightarrow> throws e)"

definition overlappedRequests ::
  "world \<Rightarrow> SpeakerRequest \<Rightarrow> SpeakerRequest \<Rightarrow> client \<Rightarrow> client" where
  "overlappedRequests w reqA reqB s =
     (case spaceId s of
        None \<Rightarrow> s
      | Some sid \<Rightarrow>
          if sid = [] \<or> currentSpace s = None then s
          else (let (queriedA, s1) = getAudioSpaceById w sid s;
                    (queriedB, s2) = getAudioSpaceById w sid s1;
                    s3 = snd (resumeRequest w reqA queriedA s2)
                in snd (resumeRequest w reqB queriedB s3)))"

text \<open>Settings with \<^verbatim>\<open>maxSpeakers: 1.5\<close>.\<close>

definition fractionalSpeakers :: charSpaces where
  "fractionalSpeakers =
     \<lparr>src_maxSpeakers = Some (3 / 2), src_typicalDurationMinutes = None,
      src_idleKickTimeoutMs = None, src_minIntervalBetweenSpacesMinutes = None,
      src_enableIdleMonitor = None, src_enableSpaceHosting = None,
      src_enableRecording = None, src_speakerMaxDurationMs = None\<rparr>"

text \<open>Settings with a negative number of speakers.\<close>

definition negativeSpeakers :: charSpaces where
  "negativeSpeakers = zeroSpeakers\<lparr>src_maxSpeakers := Some (- 1)\<rparr>"

text \<open>
  A world like \<open>quietWorld\<close> in which the room reports the speaker 1001 from the ninth
  interaction on.
\<close>

definition attentiveWorld :: world where
  "attentiveWorld =
     quietWorld\<lparr>audioSpaceAt := \<lambda>n.
       if n < 9 then Some (AudioSpace (Some (Participants (Some []) (Some []))))
       else Some (AudioSpace (Some (Participants (Some [''1001'']) (Some []))))\<rparr>"

text \<open>
  A property of the state that does not look at the bookkeeping of the admission engine
  (the two collections) nor at the record of the calls.
\<close>

definition bookkeepingBlind :: "(client \<Rightarrow> bool) \<Rightarrow> bool" where
  "bookkeepingBlind P =
     (\<forall>s tr n a q. P (s\<lparr>trace := tr\<rparr>) = P s \<and> P (s\<lparr>tick := n\<rparr>) = P s \<and>
        P (s\<lparr>activeSpeakers := a\<rparr>) = P s \<and> P (s\<lparr>speakerQueue := q\<rparr>) = P s)"

text \<open>While hosting, the session identifier, the start time and the room handle are defined.\<close>

definition hostingDefined :: "client \<Rightarrow> bool" where
  "hostingDefined s =
     (spaceStatus s = HOSTING \<longrightarrow>
        spaceId s \<noteq> None \<and> startedAt s \<noteq> None \<and> currentSpace s \<noteq> None)"

text \<open>A world in which only \<^verbatim>\<open>sendTweet\<close> rejects.\<close>

definition tweetFailsWorld :: world where
  "tweetFailsWorld =
     quietWorld\<lparr>succeeds := \<lambda>n c. case c of SendTweet url \<Rightarrow> False | _ \<Rightarrow> True\<rparr>"







text \<open>The state the client is in after a sequence of operations.\<close>

fun stateAfter :: "world \<Rightarrow> op list \<Rightarrow> client \<Rightarrow> client" where
  "stateAfter w [] s = s"
| "stateAfter w (x # xs) s = stateAfter w xs (apply_op w x s)"

text \<open>The end time of the last session is not the number 0.\<close>

definition endTimeNonzero :: "client \<Rightarrow> bool" where
  "endTimeNonzero s = (lastSpaceEndedAt s \<noteq> Some 0)"

text \<open>
  A world like \<open>quietWorld\<close> whose clock reads \<open>t\<close> from the eighth interaction on.
\<close>

definition laterWorld :: "int \<Rightarrow> world" where
  "laterWorld t = quietWorld\<lparr>now := \<lambda>n. if n < 7 then 1000 + int n else t\<rparr>"






section \<open>Admission is atomic with respect to the local bookkeeping\<close>

text \<open>
  Claim C10. \<^verbatim>\<open>acceptSpeaker\<close> never throws. The request is appended to \<open>activeSpeakers\<close>
  exactly when there is a room handle and its \<^verbatim>\<open>approveSpeaker\<close> call succeeds, with the
  clock read after the approval as \<open>startTime\<close>; when the approval fails, \<open>activeSpeakers\<close>
  is unchanged.
\<close>

theorem acceptSpeaker_atomic:
  "fst (acceptSpeaker w req s) = Returns () \<and>
   activeSpeakers (snd (acceptSpeaker w req s)) =
     (if currentSpace s \<noteq> None \<and>
         succeeds w (tick s) (ApproveSpeaker (userId req) (sessionUUID req))
      then activeSpeakers s @
             [\<lparr>userId = userId req, sessionUUID = sessionUUID req, username = username req,
               startTime = now w (Suc (tick s))\<rparr>]
      else activeSpeakers s)"
  by (simp add: acceptSpeaker_def try_catch_def then_do_def await_def record_call_def
      date_now_def modify_def returns_def)

theorem acceptSpeaker_atomic_witness:
  "fst (acceptSpeaker quietWorld alice hostingClient) = Returns () \<and>
   activeSpeakers (snd (acceptSpeaker quietWorld alice hostingClient)) =
     [\<lparr>userId = ''1001'', sessionUUID = ''uuid-a'', username = ''alice'', startTime = 1001\<rparr>] \<and>
   fst (acceptSpeaker (quietWorld\<lparr>succeeds := \<lambda>n c. False\<rparr>) alice hostingClient) = Returns () \<and>
   activeSpeakers (snd (acceptSpeaker (quietWorld\<lparr>succeeds := \<lambda>n c. False\<rparr>) alice hostingClient)) = []"
  using acceptSpeaker_atomic [of quietWorld alice hostingClient]
    acceptSpeaker_atomic [of "quietWorld\<lparr>succeeds := \<lambda>n c. False\<rparr>" alice hostingClient]
  by (simp add: quietWorld_def alice_def hostingClient_def constructor_def)

section \<open>The resolved decision options\<close>

text \<open>
  Claim C9, as stated, fails: the constructor resolves the numeric fields with \<^verbatim>\<open>??\<close>, which
  keeps a falsy source value. With \<^verbatim>\<open>maxSpeakers: 0\<close> the resolved \<open>maxSpeakers\<close> is 0, not
  the default 1, and so below 1; with \<^verbatim>\<open>enableIdleMonitor: false\<close> the resolved flag is
  false although its default is true.
\<close>

theorem resolveDecisionOptions_falsy_counterexample:
  "maxSpeakers (resolveDecisionOptions (Some zeroSpeakers)) = Some 0 \<and>
   nullish (maxSpeakers (resolveDecisionOptions (Some zeroSpeakers))) 1 < 1 \<and>
   maxSpeakers (resolveDecisionOptions None) = Some 1 \<and>
   enableIdleMonitor (resolveDecisionOptions (Some zeroSpeakers)) = Some False \<and>
   enableIdleMonitor (resolveDecisionOptions None) = Some True"
  by (simp add: resolveDecisionOptions_def zeroSpeakers_def nullish_def)

text \<open>
  Claim C9, amended. Every numeric field of the resolved options is the source value
  whenever one is present, zero included, and the default (1 speaker, 30 minutes, 300000 ms,
  60 minutes, 240000 ms) only when the value or the whole settings block is absent;
  \<open>enableIdleMonitor\<close> and \<open>enableRecording\<close> are false exactly when the source value is
  \<^verbatim>\<open>false\<close>; \<open>enableSpaceHosting\<close> is true exactly when the source value is \<^verbatim>\<open>true\<close>.
  The resolved \<open>maxSpeakers\<close> has no lower bound of its own.
\<close>

theorem resolveDecisionOptions_nullish:
  "maxSpeakers (resolveDecisionOptions settings) =
     Some (case sourceValue src_maxSpeakers settings of None \<Rightarrow> 1 | Some v \<Rightarrow> v) \<and>
   typicalDurationMinutes (resolveDecisionOptions settings) =
     Some (case sourceValue src_typicalDurationMinutes settings of None \<Rightarrow> 30 | Some v \<Rightarrow> v) \<and>
   idleKickTimeoutMs (resolveDecisionOptions settings) =
     Some (case sourceValue src_idleKickTimeoutMs settings of None \<Rightarrow> 300000 | Some v \<Rightarrow> v) \<and>
   minIntervalBetweenSpacesMinutes (resolveDecisionOptions settings) =
     Some (case sourceValue src_minIntervalBetweenSpacesMinutes settings of
             None \<Rightarrow> 60 | Some v \<Rightarrow> v) \<and>
   speakerMaxDurationMs (resolveDecisionOptions settings) =
     Some (case sourceValue src_speakerMaxDurationMs settings of None \<Rightarrow> 240000 | Some v \<Rightarrow> v) \<and>
   enableIdleMonitor (resolveDecisionOptions settings) =
     Some (sourceValue src_enableIdleMonitor settings \<noteq> Some False) \<and>
   enableRecording (resolveDecisionOptions settings) =
     Some (sourceValue src_enableRecording settings \<noteq> Some False) \<and>
   enableSpaceHosting (resolveDecisionOptions settings) =
     (sourceValue src_enableSpaceHosting settings = Some True)"
  by (cases settings)
     (auto simp: resolveDecisionOptions_def sourceValue_def nullish_def
        split: option.splits bool.splits)

theorem resolveDecisionOptions_nullish_witness:
  "maxSpeakers (resolveDecisionOptions (Some zeroSpeakers)) = Some 0 \<and>
   typicalDurationMinutes (resolveDecisionOptions (Some zeroSpeakers)) = Some 30 \<and>
   enableIdleMonitor (resolveDecisionOptions (Some zeroSpeakers)) = Some False \<and>
   enableRecording (resolveDecisionOptions (Some zeroSpeakers)) = Some True \<and>
   enableSpaceHosting (resolveDecisionOptions (Some zeroSpeakers)) = False"
  using resolveDecisionOptions_nullish [of "Some zeroSpeakers"]
  by (simp add: sourceValue_def zeroSpeakers_def)

section \<open>Stopping a session\<close>

text \<open>
  Claim C2, as stated, fails: after a join the status is PARTICIPATING and there is no room
  handle, so \<^verbatim>\<open>stopSpace\<close> returns at its guard and the status is PARTICIPATING, not
  IDLE, after one call and after two.
\<close>

theorem stopSpace_participating_counterexample:
  "spaceStatus (snd (joinSpace quietWorld ''1OdKrXYZ'' (constructor None))) = PARTICIPATING \<and>
   currentSpace (snd (joinSpace quietWorld ''1OdKrXYZ'' (constructor None))) = None \<and>
   spaceStatus (snd (stopSpace quietWorld
     (snd (joinSpace quietWorld ''1OdKrXYZ'' (constructor None))))) = PARTICIPATING \<and>
   spaceStatus (snd (stopSpace quietWorld (snd (stopSpace quietWorld
     (snd (joinSpace quietWorld ''1OdKrXYZ'' (constructor None))))))) = PARTICIPATING"
  by (simp add: constructor_def quietWorld_def joinSpace_def stopSpace_def then_do_def
      modify_def try_catch_def await_def record_call_def requestSpeaker_def
      negotiateSpeaker_def waitForApproval_def approvalRace_def participantOn_def
      participantOff_def timerFires_def settle_def returns_def nullish_def)

text \<open>
  Claim C2, amended. \<^verbatim>\<open>stopSpace\<close> never throws, and a second call in a row changes
  nothing. If the status is IDLE or there is no room handle, the call changes nothing.
  Whenever there is a room handle or the status is IDLE, the status is IDLE after the first
  call and after the second. With a room handle and a status other than IDLE, whether the
  room's \<^verbatim>\<open>stop\<close> succeeds or not, the call sets the status to IDLE, clears \<open>spaceId\<close>,
  the handle and \<open>startedAt\<close>, sets \<open>lastSpaceEndedAt\<close> to the current time and empties
  \<open>activeSpeakers\<close> and \<open>speakerQueue\<close>.
\<close>

theorem stopSpace_idempotent:
  "fst (stopSpace w s) = Returns () \<and>
   stopSpace w (snd (stopSpace w s)) = (Returns (), snd (stopSpace w s)) \<and>
   (currentSpace s = None \<or> spaceStatus s = IDLE \<longrightarrow> snd (stopSpace w s) = s) \<and>
   (currentSpace s \<noteq> None \<or> spaceStatus s = IDLE \<longrightarrow>
      spaceStatus (snd (stopSpace w s)) = IDLE \<and>
      spaceStatus (snd (stopSpace w (snd (stopSpace w s)))) = IDLE) \<and>
   (currentSpace s \<noteq> None \<and> spaceStatus s \<noteq> IDLE \<longrightarrow>
      snd (stopSpace w s) =
        s\<lparr>spaceStatus := IDLE, spaceId := None, currentSpace := None, startedAt := None,
          lastSpaceEndedAt := Some (now w (Suc (tick s))), activeSpeakers := [],
          speakerQueue := [], tick := Suc (Suc (tick s)), trace := trace s @ [SpaceStop]\<rparr>)"
  by (auto simp: stopSpace_def then_do_def try_catch_def await_def record_call_def
      date_now_def modify_def returns_def)

text \<open>
  The room's \<^verbatim>\<open>stop\<close> rejects, and the session with a speaker and a pending request is
  reset all the same; stopping the idle client changes nothing.
\<close>

theorem stopSpace_idempotent_witness:
  "currentSpace busyClient \<noteq> None \<and> spaceStatus busyClient \<noteq> IDLE \<and>
   \<not> succeeds failingWorld (tick busyClient) SpaceStop \<and>
   fst (stopSpace failingWorld busyClient) = Returns () \<and>
   spaceStatus (snd (stopSpace failingWorld busyClient)) = IDLE \<and>
   spaceStatus (snd (stopSpace failingWorld (snd (stopSpace failingWorld busyClient)))) = IDLE \<and>
   spaceId (snd (stopSpace failingWorld busyClient)) = None \<and>
   currentSpace (snd (stopSpace failingWorld busyClient)) = None \<and>
   startedAt (snd (stopSpace failingWorld busyClient)) = None \<and>
   lastSpaceEndedAt (snd (stopSpace failingWorld busyClient)) = Some 1001 \<and>
   activeSpeakers (snd (stopSpace failingWorld busyClient)) = [] \<and>
   speakerQueue (snd (stopSpace failingWorld busyClient)) = [] \<and>
   spaceStatus (constructor None) = IDLE \<and>
   snd (stopSpace failingWorld (constructor None)) = constructor None"
proof -
  have busy: "currentSpace busyClient \<noteq> None \<and> spaceStatus busyClient \<noteq> IDLE"
    by (simp add: busyClient_def hostingClient_def constructor_def)
  have fails: "\<not> succeeds failingWorld (tick busyClient) SpaceStop"
    by (simp add: failingWorld_def)
  have clock: "now failingWorld (Suc (tick busyClient)) = 1001"
    by (simp add: busyClient_def hostingClient_def constructor_def failingWorld_def
        quietWorld_def)
  have idle: "spaceStatus (constructor None) = IDLE"
    by (simp add: constructor_def)
  from busy stopSpace_idempotent [of failingWorld busyClient]
  have "fst (stopSpace failingWorld busyClient) = Returns ()"
    and "spaceStatus (snd (stopSpace failingWorld (snd (stopSpace failingWorld busyClient)))) = IDLE"
    and "snd (stopSpace failingWorld busyClient) =
      busyClient\<lparr>spaceStatus := IDLE, spaceId := None, currentSpace := None,
        startedAt := None, lastSpaceEndedAt := Some (now failingWorld (Suc (tick busyClient))),
        activeSpeakers := [], speakerQueue := [], tick := Suc (Suc (tick busyClient)),
        trace := trace busyClient @ [SpaceStop]\<rparr>"
    by blast+
  moreover from idle stopSpace_idempotent [of failingWorld "constructor None"]
  have "snd (stopSpace failingWorld (constructor None)) = constructor None"
    by blast
  ultimately show ?thesis
    using busy fails clock idle by simp
qed

section \<open>Waiting for the speaker approval\<close>

lemma emitAccepted_not_listening:
  "\<not> listening (fst st) \<Longrightarrow> foldl (emitAccepted w uuid) st evs = st"
  by (induction evs) (simp_all add: emitAccepted_def)

lemma approvalHandler_match:
  "approvalHandler w uuid uuid (ws, s) =
     (ws\<lparr>resolved := True, listening := False,
         settled := (if settled ws = Pending
                     then (if succeeds w (tick s) BecomeSpeaker then Fulfilled
                           else RejectedWith (Rejected BecomeSpeaker))
                     else settled ws)\<rparr>,
      s\<lparr>trace := trace s @ [ParticipantOff ''newSpeakerAccepted'', BecomeSpeaker],
        tick := Suc (tick s)\<rparr>)"
  by (simp add: approvalHandler_def participantOff_def await_def record_call_def settle_def)

lemma approvalHandler_stops_listening:
  "\<not> listening (fst (approvalHandler w uuid uuid st))"
  by (cases st) (simp add: approvalHandler_match)

lemma emitAccepted_no_match:
  "uuid \<notin> set evs \<Longrightarrow> foldl (emitAccepted w uuid) st evs = st"
  by (induction evs arbitrary: st) (auto simp: emitAccepted_def approvalHandler_def)

lemma emitAccepted_match:
  "listening (fst st) \<Longrightarrow> uuid \<in> set evs \<Longrightarrow>
   foldl (emitAccepted w uuid) st evs = approvalHandler w uuid uuid st"
proof (induction evs arbitrary: st)
  case Nil
  then show ?case by simp
next
  case (Cons e evs)
  show ?case
  proof (cases "e = uuid")
    case True
    with Cons.prems have "emitAccepted w uuid st e = approvalHandler w uuid uuid st"
      by (simp add: emitAccepted_def)
    then show ?thesis
      by (simp add: emitAccepted_not_listening approvalHandler_stops_listening)
  next
    case False
    with Cons.prems have "emitAccepted w uuid st e = st" and "uuid \<in> set evs"
      by (auto simp: emitAccepted_def approvalHandler_def)
    with Cons show ?thesis by simp
  qed
qed

lemma approvalRace_result:
  "approvalRace w uuid timeoutMs before after s =
     (if uuid \<in> set before
      then (\<lparr>resolved = True, listening = False,
             settled = (if succeeds w (tick s) BecomeSpeaker then Fulfilled
                        else RejectedWith (Rejected BecomeSpeaker))\<rparr>,
            s\<lparr>trace := trace s @ [ParticipantOn ''newSpeakerAccepted'',
                 ParticipantOff ''newSpeakerAccepted'', BecomeSpeaker],
              tick := Suc (tick s)\<rparr>)
      else (\<lparr>resolved = False, listening = False,
             settled = RejectedWith (ApprovalTimeout timeoutMs)\<rparr>,
            s\<lparr>trace := trace s @ [ParticipantOn ''newSpeakerAccepted'',
                 ParticipantOff ''newSpeakerAccepted'']\<rparr>))"
proof (cases "uuid \<in> set before")
  case True
  then show ?thesis
    by (simp add: approvalRace_def participantOn_def emitAccepted_match approvalHandler_match
        timerFires_def emitAccepted_not_listening record_call_def)
next
  case False
  then show ?thesis
    by (simp add: approvalRace_def participantOn_def emitAccepted_no_match
        timerFires_def participantOff_def settle_def emitAccepted_not_listening record_call_def)
qed

text \<open>
  Claim C7. If an approval with the awaited identifier is emitted before the timer fires,
  the wait resolves when \<^verbatim>\<open>becomeSpeaker\<close> succeeds and rejects with its error when it
  fails; otherwise the wait rejects with the timeout error. In both cases
  \<^verbatim>\<open>participant.off\<close> is called exactly once for the wait, and no listener is registered
  when all events have been handled, whatever is emitted after the timer.
\<close>

theorem waitForApproval_settles:
  "fst (waitForApproval w uuid timeoutMs s) =
     (if uuid \<in> set (acceptedBeforeTimeout w (tick s))
      then (if succeeds w (tick s) BecomeSpeaker then Returns ()
            else Throws (Rejected BecomeSpeaker))
      else Throws (ApprovalTimeout (nullish timeoutMs 10000))) \<and>
   trace (snd (waitForApproval w uuid timeoutMs s)) =
     trace s @ [ParticipantOn ''newSpeakerAccepted'', ParticipantOff ''newSpeakerAccepted''] @
       (if uuid \<in> set (acceptedBeforeTimeout w (tick s)) then [BecomeSpeaker] else []) \<and>
   count_list (trace (snd (waitForApproval w uuid timeoutMs s)))
       (ParticipantOff ''newSpeakerAccepted'') =
     Suc (count_list (trace s) (ParticipantOff ''newSpeakerAccepted'')) \<and>
   \<not> listening (fst (approvalRace w uuid (nullish timeoutMs 10000)
        (acceptedBeforeTimeout w (tick s)) (acceptedAfterTimeout w (tick s)) s))"
  by (simp add: waitForApproval_def approvalRace_result)

text \<open>
  A timeout of 15 s: the matching approval comes first and the wait resolves; no approval
  comes and the wait times out.
\<close>

theorem waitForApproval_settles_witness:
  "fst (waitForApproval approvingWorld ''uuid-1'' (Some 15000) (constructor None)) = Returns () \<and>
   trace (snd (waitForApproval approvingWorld ''uuid-1'' (Some 15000) (constructor None))) =
     [ParticipantOn ''newSpeakerAccepted'', ParticipantOff ''newSpeakerAccepted'',
      BecomeSpeaker] \<and>
   fst (waitForApproval quietWorld ''uuid-1'' (Some 15000) (constructor None)) =
     Throws (ApprovalTimeout 15000) \<and>
   trace (snd (waitForApproval quietWorld ''uuid-1'' (Some 15000) (constructor None))) =
     [ParticipantOn ''newSpeakerAccepted'', ParticipantOff ''newSpeakerAccepted'']"
  using waitForApproval_settles [of approvingWorld "''uuid-1''" "Some 15000" "constructor None"]
    waitForApproval_settles [of quietWorld "''uuid-1''" "Some 15000" "constructor None"]
  by (simp add: approvingWorld_def quietWorld_def constructor_def nullish_def)

section \<open>Joining a session when the negotiation fails\<close>

lemma negotiateSpeaker_failure:
  assumes "uuid \<notin> set (acceptedBeforeTimeout w (tick s)) \<or> \<not> succeeds w (tick s) BecomeSpeaker"
  shows "fst (negotiateSpeaker w uuid s) = Returns () \<and>
    spaceStatus (snd (negotiateSpeaker w uuid s)) = spaceStatus s \<and>
    trace (snd (negotiateSpeaker w uuid s)) =
      trace s @ [ParticipantOn ''newSpeakerAccepted'', ParticipantOff ''newSpeakerAccepted''] @
        (if uuid \<in> set (acceptedBeforeTimeout w (tick s)) then [BecomeSpeaker] else []) @
        [CancelSpeakerRequest]"
  using assms
  by (auto simp: negotiateSpeaker_def try_catch_def then_do_def waitForApproval_def
      approvalRace_result await_def record_call_def returns_def modify_def)

text \<open>
  Claim C8, as stated, fails in its last part: when the wait for the approval times out,
  \<^verbatim>\<open>joinSpace\<close> cancels the request and then returns the space id, as it does when the
  negotiation succeeds. The failure is caught and logged; the caller gets no rejection.
\<close>

theorem joinSpace_timeout_counterexample:
  "trace (snd (joinSpace quietWorld ''1OdKrXYZ'' (constructor None))) =
     [JoinAsListener ''1OdKrXYZ'', RequestSpeaker, ParticipantOn ''newSpeakerAccepted'',
      ParticipantOff ''newSpeakerAccepted'', CancelSpeakerRequest] \<and>
   fst (joinSpace quietWorld ''1OdKrXYZ'' (constructor None)) =
     Returns (JoinedSpace ''1OdKrXYZ'') \<and>
   fst (joinSpace approvingWorld ''1OdKrXYZ'' (constructor None)) =
     Returns (JoinedSpace ''1OdKrXYZ'')"
  by (simp add: constructor_def approvingWorld_def quietWorld_def joinSpace_def then_do_def
      modify_def try_catch_def await_def record_call_def requestSpeaker_def
      negotiateSpeaker_def waitForApproval_def approvalRace_result returns_def nullish_def)

text \<open>
  Claim C8, amended. For every join from the IDLE status in which \<^verbatim>\<open>joinAsListener\<close> and
  \<^verbatim>\<open>requestSpeaker\<close> succeed and the negotiation fails (no matching approval before the
  timeout, or \<^verbatim>\<open>becomeSpeaker\<close> rejects), \<^verbatim>\<open>cancelSpeakerRequest\<close> is called exactly once,
  as the last call, and whether the cancellation succeeds or not the join returns the space
  id with the status PARTICIPATING: the negotiation failure is logged and not passed on to
  the caller.
\<close>

theorem joinSpace_negotiation_failure:
  assumes "spaceStatus s = IDLE"
    and "succeeds w (tick s) (JoinAsListener sid)"
    and "succeeds w (Suc (tick s)) RequestSpeaker"
    and "requestAt w (Suc (tick s)) \<notin> set (acceptedBeforeTimeout w (Suc (Suc (tick s)))) \<or>
         \<not> succeeds w (Suc (Suc (tick s))) BecomeSpeaker"
  shows "fst (joinSpace w sid s) = Returns (JoinedSpace sid) \<and>
    spaceStatus (snd (joinSpace w sid s)) = PARTICIPATING \<and>
    trace (snd (joinSpace w sid s)) =
      trace s @ [JoinAsListener sid, RequestSpeaker, ParticipantOn ''newSpeakerAccepted'',
                 ParticipantOff ''newSpeakerAccepted''] @
        (if requestAt w (Suc (tick s)) \<in> set (acceptedBeforeTimeout w (Suc (Suc (tick s))))
         then [BecomeSpeaker] else []) @
        [CancelSpeakerRequest] \<and>
    count_list (trace (snd (joinSpace w sid s))) CancelSpeakerRequest =
      Suc (count_list (trace s) CancelSpeakerRequest)"
proof -
  define s3 where "s3 = snd (then_do (modify (\<lambda>c. if spaceParticipant c = None
      then c\<lparr>spaceParticipant := Some SpaceParticipant\<rparr> else c)) (\<lambda>_.
    then_do (await w (JoinAsListener sid)) (\<lambda>_.
    then_do (modify (\<lambda>c'. c'\<lparr>spaceStatus := PARTICIPATING\<rparr>)) (\<lambda>_.
    requestSpeaker w))) s)"
  have s3: "tick s3 = Suc (Suc (tick s))" "spaceStatus s3 = PARTICIPATING"
    "trace s3 = trace s @ [JoinAsListener sid, RequestSpeaker]"
    using assms(2,3)
    by (cases "spaceParticipant s";
        simp add: s3_def then_do_def modify_def await_def record_call_def requestSpeaker_def)+
  obtain r s' where r: "negotiateSpeaker w (requestAt w (Suc (tick s))) s3 = (r, s')"
    by (cases "negotiateSpeaker w (requestAt w (Suc (tick s))) s3")
  from assms(4) have "requestAt w (Suc (tick s)) \<notin> set (acceptedBeforeTimeout w (tick s3)) \<or>
      \<not> succeeds w (tick s3) BecomeSpeaker"
    by (simp add: s3)
  from negotiateSpeaker_failure [OF this] r
  have neg: "r = Returns ()" "spaceStatus s' = PARTICIPATING"
    "trace s' = trace s @ [JoinAsListener sid, RequestSpeaker,
        ParticipantOn ''newSpeakerAccepted'', ParticipantOff ''newSpeakerAccepted''] @
      (if requestAt w (Suc (tick s)) \<in> set (acceptedBeforeTimeout w (Suc (Suc (tick s))))
       then [BecomeSpeaker] else []) @ [CancelSpeakerRequest]"
    by (simp_all add: s3)
  have "joinSpace w sid s = (Returns (JoinedSpace sid), s')"
    using assms(1-3) r neg(1)
    by (cases "spaceParticipant s";
        simp add: joinSpace_def then_do_def modify_def try_catch_def await_def
          record_call_def requestSpeaker_def returns_def s3_def)
  with neg show ?thesis
    by simp
qed

text \<open>A timeout, and a finalization error followed by a cancellation that fails.\<close>

theorem joinSpace_negotiation_failure_witness:
  "spaceStatus (constructor None) = IDLE \<and>
   requestAt quietWorld (Suc (tick (constructor None)))
     \<notin> set (acceptedBeforeTimeout quietWorld (Suc (Suc (tick (constructor None))))) \<and>
   fst (joinSpace quietWorld ''1OdKrXYZ'' (constructor None)) =
     Returns (JoinedSpace ''1OdKrXYZ'') \<and>
   count_list (trace (snd (joinSpace quietWorld ''1OdKrXYZ'' (constructor None))))
     CancelSpeakerRequest = 1 \<and>
   \<not> succeeds finalizeFailsWorld (Suc (Suc (tick (constructor None)))) BecomeSpeaker \<and>
   fst (joinSpace finalizeFailsWorld ''1OdKrXYZ'' (constructor None)) =
     Returns (JoinedSpace ''1OdKrXYZ'') \<and>
   trace (snd (joinSpace finalizeFailsWorld ''1OdKrXYZ'' (constructor None))) =
     [JoinAsListener ''1OdKrXYZ'', RequestSpeaker, ParticipantOn ''newSpeakerAccepted'',
      ParticipantOff ''newSpeakerAccepted'', BecomeSpeaker, CancelSpeakerRequest]"
proof -
  have idle: "spaceStatus (constructor None) = IDLE"
    and t0: "tick (constructor None) = 0" and tr0: "trace (constructor None) = []"
    by (simp_all add: constructor_def)
  have quiet: "succeeds quietWorld (tick (constructor None)) (JoinAsListener ''1OdKrXYZ'')"
    "succeeds quietWorld (Suc (tick (constructor None))) RequestSpeaker"
    "requestAt quietWorld (Suc (tick (constructor None)))
       \<notin> set (acceptedBeforeTimeout quietWorld (Suc (Suc (tick (constructor None)))))"
    by (simp_all add: quietWorld_def)
  have fin: "succeeds finalizeFailsWorld (tick (constructor None)) (JoinAsListener ''1OdKrXYZ'')"
    "succeeds finalizeFailsWorld (Suc (tick (constructor None))) RequestSpeaker"
    "\<not> succeeds finalizeFailsWorld (Suc (Suc (tick (constructor None)))) BecomeSpeaker"
    "requestAt finalizeFailsWorld (Suc (tick (constructor None)))
       \<in> set (acceptedBeforeTimeout finalizeFailsWorld (Suc (Suc (tick (constructor None)))))"
    by (simp_all add: finalizeFailsWorld_def approvingWorld_def quietWorld_def)
  note a = joinSpace_negotiation_failure [OF idle quiet(1) quiet(2) disjI1, OF quiet(3)]
  note b = joinSpace_negotiation_failure [OF idle fin(1) fin(2) disjI2, OF fin(3)]
  from a b show ?thesis
    using idle quiet(3) fin(3,4) by (simp add: tr0)
qed

section \<open>The number of active speakers\<close>

subsection \<open>Rules for properties of the final state\<close>

lemma preservedI: "(\<And>s. P s \<Longrightarrow> P (snd (m s))) \<Longrightarrow> preserved P m"
  by (simp add: preserved_def)

lemma preservedD: "preserved P m \<Longrightarrow> P s \<Longrightarrow> P (snd (m s))"
  by (simp add: preserved_def)

lemma preserved_returns: "preserved P (returns a)"
  by (simp add: preserved_def returns_def)

lemma preserved_throws: "preserved P (throws e)"
  by (simp add: preserved_def throws_def)

lemma preserved_then_do:
  "preserved P m \<Longrightarrow> (\<And>a. preserved P (f a)) \<Longrightarrow> preserved P (then_do m f)"
  by (auto simp: preserved_def then_do_def split: prod.splits outcome.splits)

lemma preserved_try_catch:
  "preserved P m \<Longrightarrow> (\<And>e. preserved P (h e)) \<Longrightarrow> preserved P (try_catch m h)"
  by (auto simp: preserved_def try_catch_def split: prod.splits outcome.splits)

lemma preserved_modify: "(\<And>s. P s \<Longrightarrow> P (f s)) \<Longrightarrow> preserved P (modify f)"
  by (simp add: preserved_def modify_def)

lemma preserved_if:
  "preserved P m \<Longrightarrow> preserved P n \<Longrightarrow> preserved P (\<lambda>s. if b s then m s else n s)"
  by (simp add: preserved_def)

lemma preserved_if_const:
  "preserved P m \<Longrightarrow> preserved P n \<Longrightarrow> preserved P (if b then m else n)"
  by simp

lemma preserved_await:
  "(\<And>s n tr. P s \<Longrightarrow> P (s\<lparr>trace := tr, tick := n\<rparr>)) \<Longrightarrow> preserved P (await w c)"
  by (simp add: preserved_def await_def record_call_def)

lemma preserved_date_now:
  "(\<And>s n. P s \<Longrightarrow> P (s\<lparr>tick := n\<rparr>)) \<Longrightarrow> preserved P (date_now w)"
  by (simp add: preserved_def date_now_def)

lemma preserved_getAudioSpaceById:
  "(\<And>s n tr. P s \<Longrightarrow> P (s\<lparr>trace := tr, tick := n\<rparr>)) \<Longrightarrow>
   preserved P (getAudioSpaceById w sid)"
  by (simp add: preserved_def getAudioSpaceById_def record_call_def)

lemma preserved_case_option:
  "preserved P m \<Longrightarrow> (\<And>x. preserved P (f x)) \<Longrightarrow>
   preserved P (case a of None \<Rightarrow> m | Some x \<Rightarrow> f x)"
  by (cases a) simp_all

lemma preserved_case_AudioSpace:
  "(\<And>p. preserved P (f p)) \<Longrightarrow> preserved P (case a of AudioSpace p \<Rightarrow> f p)"
  by (cases a) simp

lemmas preserved_rules =
  preserved_returns preserved_throws preserved_then_do preserved_try_catch
  preserved_modify preserved_if preserved_if_const preserved_case_option
  preserved_case_AudioSpace

subsection \<open>The bound on the active speakers\<close>

lemma length_splice1: "length (splice1 i xs) \<le> length xs"
  by (simp add: splice1_def)

lemma capacityBound_ghost [simp]:
  "capacityBound d n (s\<lparr>trace := tr, tick := k\<rparr>) = capacityBound d n s"
  "capacityBound d n (s\<lparr>tick := k\<rparr>) = capacityBound d n s"
  "capacityBound d n (s\<lparr>trace := tr\<rparr>) = capacityBound d n s"
  "capacityBound d n (s\<lparr>speakerQueue := q\<rparr>) = capacityBound d n s"
  by (simp_all add: capacityBound_def)

lemma capacity_speakFiller: "preserved (capacityBound d n) (speakFiller w k dl)"
  unfolding speakFiller_def by (intro preserved_await) simp

lemma capacity_removeSpeaker: "preserved (capacityBound d n) (removeSpeaker w uid)"
  by (rule preservedI)
     (simp add: removeSpeaker_def try_catch_def await_def record_call_def returns_def)

lemma capacity_evictStep: "preserved (capacityBound d n) (evictStep w maxDur t i)"
proof (rule preservedI)
  fix s assume P: "capacityBound d n s"
  have rm: "preserved (capacityBound d n)
      (then_do (removeSpeaker w uid) (\<lambda>_.
       then_do (modify (\<lambda>c. c\<lparr>activeSpeakers := splice1 i (activeSpeakers c)\<rparr>)) (\<lambda>_.
       speakFiller w ''SPEAKER_LEFT'' None)))" for uid
    by (intro preserved_rules capacity_removeSpeaker capacity_speakFiller)
       (use length_splice1 [of i] in \<open>auto simp: capacityBound_def intro: order_trans\<close>)
  show "capacityBound d n (snd (evictStep w maxDur t i s))"
    using P preservedD [OF rm P]
    by (simp add: evictStep_def Let_def returns_def throws_def)
qed

lemma capacity_evictLoop: "preserved (capacityBound d n) (evictLoop w maxDur t k)"
proof (rule preservedI)
  fix s show "capacityBound d n s \<Longrightarrow> capacityBound d n (snd (evictLoop w maxDur t k s))"
  proof (induction k arbitrary: s)
    case 0
    then show ?case by (simp add: returns_def)
  next
    case (Suc k)
    from preservedD [OF capacity_evictStep Suc.prems]
    have "capacityBound d n (snd (evictStep w maxDur t k s))" .
    with Suc.IH show ?case
      by (auto split: prod.splits outcome.splits)
  qed
qed

lemma capacity_evictExpiredSpeakers:
  "preserved (capacityBound d n) (evictExpiredSpeakers w maxDur t)"
  by (rule preservedI) (simp add: evictExpiredSpeakers_def preservedD [OF capacity_evictLoop])

lemma acceptSpeaker_grows:
  "decisionOptions (snd (acceptSpeaker w req s)) = decisionOptions s \<and>
   length (activeSpeakers (snd (acceptSpeaker w req s))) \<le> Suc (length (activeSpeakers s))"
  by (simp add: acceptSpeaker_def try_catch_def then_do_def await_def record_call_def
      date_now_def modify_def returns_def)

lemma acceptNext_grows:
  "decisionOptions (snd (acceptNext w s)) = decisionOptions s \<and>
   length (activeSpeakers (snd (acceptNext w s))) \<le> Suc (length (activeSpeakers s))"
proof (cases "speakerQueue s")
  case Nil
  then show ?thesis by (simp add: acceptNext_def returns_def)
next
  case (Cons r rest)
  then show ?thesis
    using acceptSpeaker_grows [of w r
        "s\<lparr>speakerQueue := rest, trace := trace s @ [SpeakFiller ''PRE_ACCEPT'' None],
           tick := Suc (tick s)\<rparr>"]
    by (simp add: acceptNext_def then_do_def modify_def speakFiller_def await_def
        record_call_def)
qed

lemma capacity_acceptLoop:
  "ms \<le> of_nat n \<Longrightarrow> capacityBound d n s \<Longrightarrow> capacityBound d n (snd (acceptLoop w ms s))"
proof (induction w ms s rule: acceptLoop.induct)
  case (1 w ms s)
  show ?case
  proof (cases "length (speakerQueue s) > 0 \<and> of_nat (length (activeSpeakers s)) < ms")
    case False
    with "1.prems" show ?thesis
      by (subst acceptLoop.simps) (auto simp: returns_def)
  next
    case True
    obtain r s' where r: "acceptNext w s = (r, s')" by (cases "acceptNext w s")
    from True "1.prems"(1) have "(of_nat (length (activeSpeakers s)) :: rat) < of_nat n"
      by simp
    then have "length (activeSpeakers s) < n"
      by (simp only: of_nat_less_iff)
    with acceptNext_grows [of w s] r "1.prems"
    have s': "capacityBound d n s'"
      by (simp add: capacityBound_def)
    show ?thesis
    proof (cases r)
      case (Returns u)
      from "1.IH" [OF True r [symmetric] Returns "1.prems"(1) s']
      show ?thesis
        using True r Returns by (subst acceptLoop.simps) auto
    next
      case (Throws e)
      with True r s' show ?thesis
        by (subst acceptLoop.simps) auto
    qed
  qed
qed

lemma capacity_acceptSpeakersFromQueueIfNeeded:
  assumes "nullish (maxSpeakers d) 1 \<le> of_nat n"
  shows "preserved (capacityBound d n) (acceptSpeakersFromQueueIfNeeded w)"
proof (rule preservedI)
  fix s assume P: "capacityBound d n s"
  then have "decisionOptions s = d" by (simp add: capacityBound_def)
  with capacity_acceptLoop [OF assms P, of w]
  show "capacityBound d n (snd (acceptSpeakersFromQueueIfNeeded w s))"
    by (simp add: acceptSpeakersFromQueueIfNeeded_def)
qed

lemma capacity_kickOne: "preserved (capacityBound d n) (kickOne w sp)"
  unfolding kickOne_def
  by (intro preserved_rules capacity_removeSpeaker)
     (use length_splice1 in \<open>auto simp: capacityBound_def Let_def intro: order_trans\<close>)

lemma capacity_kickLoop: "preserved (capacityBound d n) (kickLoop w sps)"
proof (rule preservedI)
  fix s show "capacityBound d n s \<Longrightarrow> capacityBound d n (snd (kickLoop w sps s))"
  proof (induction sps arbitrary: s)
    case Nil
    then show ?case by (simp add: returns_def)
  next
    case (Cons sp sps)
    from preservedD [OF capacity_kickOne Cons.prems]
    have "capacityBound d n (snd (kickOne w sp s))" .
    with Cons.IH show ?case
      by (auto split: prod.splits outcome.splits)
  qed
qed

lemma capacity_kickExtraSpeakers: "preserved (capacityBound d n) (kickExtraSpeakers w sps)"
proof (rule preservedI)
  fix s assume P: "capacityBound d n s"
  show "capacityBound d n (snd (kickExtraSpeakers w sps s))"
    using P preservedD [OF capacity_kickLoop P]
    by (simp add: kickExtraSpeakers_def returns_def throws_def split: option.splits)
qed

lemma capacity_stopSpace: "preserved (capacityBound d n) (stopSpace w)"
  by (rule preservedI)
     (simp add: stopSpace_def then_do_def try_catch_def await_def record_call_def
        date_now_def modify_def returns_def capacityBound_def)

lemma capacity_onIdleTimeout: "preserved (capacityBound d n) (onIdleTimeout w)"
  unfolding onIdleTimeout_def
  by (intro preserved_rules capacity_speakFiller capacity_stopSpace)

lemma capacity_evict_dep:
  "preserved (capacityBound d n) (\<lambda>c. evictExpiredSpeakers w (g c) t c)"
  by (rule preservedI) (simp add: preservedD [OF capacity_evictExpiredSpeakers])

lemma capacity_manageBody:
  "nullish (maxSpeakers d) 1 \<le> of_nat n \<Longrightarrow> preserved (capacityBound d n) (manageBody w sid)"
  unfolding manageBody_def Let_def
  by (intro preserved_rules preserved_getAudioSpaceById preserved_date_now
        capacity_evict_dep capacity_acceptSpeakersFromQueueIfNeeded
        capacity_kickExtraSpeakers capacity_speakFiller capacity_stopSpace)
     simp_all

lemma capacity_manageCurrentSpace:
  assumes "nullish (maxSpeakers d) 1 \<le> of_nat n"
  shows "preserved (capacityBound d n) (manageCurrentSpace w)"
proof (rule preservedI)
  fix s assume P: "capacityBound d n s"
  have "preserved (capacityBound d n) (try_catch (manageBody w sid) (\<lambda>err. returns ()))" for sid
    by (intro preserved_rules capacity_manageBody assms)
  from preservedD [OF this P] P
  show "capacityBound d n (snd (manageCurrentSpace w s))"
    by (simp add: manageCurrentSpace_def returns_def split: option.splits)
qed

lemma capacity_startSpace: "preserved (capacityBound d n) (startSpace w config)"
  unfolding startSpace_def startBody_def speakFiller_def
  by (intro preserved_rules preserved_date_now preserved_await)
     (simp_all add: capacityBound_def record_call_def preserved_def initialize_def await_def)

lemma waitForApproval_state:
  "snd (waitForApproval w uuid tmo s) =
     s\<lparr>trace := trace (snd (waitForApproval w uuid tmo s)),
       tick := tick (snd (waitForApproval w uuid tmo s))\<rparr>"
  by (simp add: waitForApproval_def approvalRace_result split: promise.splits)

lemma preserved_waitForApproval:
  assumes "\<And>s n tr. P s \<Longrightarrow> P (s\<lparr>trace := tr, tick := n\<rparr>)"
  shows "preserved P (waitForApproval w uuid tmo)"
proof (rule preservedI)
  fix s assume "P s"
  from assms [OF this] show "P (snd (waitForApproval w uuid tmo s))"
    by (subst waitForApproval_state)
qed

lemma capacity_joinSpace: "preserved (capacityBound d n) (joinSpace w sid)"
proof (rule preservedI)
  fix s assume P: "capacityBound d n s"
  have "preserved (capacityBound d n)
     (then_do
             (modify (\<lambda>c. if spaceParticipant c = None
                           then c\<lparr>spaceParticipant := Some SpaceParticipant\<rparr> else c))
             (\<lambda>_ c.
                if spaceParticipant c \<noteq> None then
                  try_catch
                    (then_do (await w (JoinAsListener sid)) (\<lambda>_.
                     then_do (modify (\<lambda>c'. c'\<lparr>spaceStatus := PARTICIPATING\<rparr>)) (\<lambda>_.
                     then_do (requestSpeaker w) (\<lambda>uuid.
                     then_do (negotiateSpeaker w uuid) (\<lambda>_.
                     returns (JoinedSpace sid))))))
                    (\<lambda>error. returns JoinNull) c
                else returns JoinUndefined c))"
    unfolding negotiateSpeaker_def
    by (intro preserved_rules preserved_await preserved_waitForApproval)
       (simp_all add: capacityBound_def preserved_def requestSpeaker_def record_call_def)
  from preservedD [OF this P] P show "capacityBound d n (snd (joinSpace w sid s))"
    by (simp add: joinSpace_def returns_def)
qed

lemma capacity_admitOrQueue:
  assumes "capacityBound d n s" and "of_nat n = nullish (maxSpeakers d) 1"
    and "length (activeSpeakers s) \<le> length janusSpeakers"
  shows "capacityBound d n (snd (admitOrQueue w req janusSpeakers s))"
proof (cases "of_nat (length janusSpeakers) < nullish (maxSpeakers d) 1")
  case False
  with assms(1) show ?thesis
    by (simp add: admitOrQueue_def modify_def capacityBound_def)
next
  case True
  with assms(2) have "(of_nat (length janusSpeakers) :: rat) < of_nat n" by simp
  then have "length janusSpeakers < n" by (simp only: of_nat_less_iff)
  with assms(3) have room: "length (activeSpeakers s) < n" by simp
  define s2 where "s2 = s\<lparr>trace := trace s @ [SpeakFiller ''PRE_ACCEPT'' None],
    tick := Suc (tick s)\<rparr>"
  have s2: "decisionOptions s2 = d" "activeSpeakers s2 = activeSpeakers s"
    using assms(1) by (simp_all add: s2_def capacityBound_def)
  from acceptSpeaker_grows [of w req s2] s2 room
  have acc: "capacityBound d n (snd (acceptSpeaker w req s2))"
    by (simp add: capacityBound_def)
  have fil: "capacityBound d n s2"
    using s2 room by (simp add: capacityBound_def)
  from True assms(1) acc fil show ?thesis
    by (simp add: admitOrQueue_def then_do_def s2_def speakFiller_def await_def
        record_call_def capacityBound_def)
qed

lemma capacity_handleSpeakerRequest:
  assumes "capacityBound d n s" and "of_nat n = nullish (maxSpeakers d) 1"
    and "length (activeSpeakers s) \<le> length (janusSpeakersOf (audioSpaceAt w (tick s)))"
  shows "capacityBound d n (snd (handleSpeakerRequest w req s))"
proof (cases "\<exists>sid. spaceId s = Some sid \<and> sid \<noteq> [] \<and> currentSpace s \<noteq> None")
  case False
  with assms(1) show ?thesis
    by (auto simp: handleSpeakerRequest_def returns_def split: option.splits)
next
  case True
  then obtain sid h where sid: "spaceId s = Some sid" "sid \<noteq> []" "currentSpace s = Some h"
    by auto
  define s1 where "s1 = s\<lparr>trace := trace s @ [GetAudioSpaceById sid], tick := Suc (tick s)\<rparr>"
  have s1: "capacityBound d n s1" "activeSpeakers s1 = activeSpeakers s"
    using assms(1) by (simp_all add: s1_def capacityBound_def)
  show ?thesis
  proof (cases "succeeds w (tick s) (GetAudioSpaceById sid)")
    case False
    with sid s1(1) show ?thesis
      by (simp add: handleSpeakerRequest_def then_do_def getAudioSpaceById_def
          record_call_def s1_def)
  next
    case True
    from assms(3) s1(2)
    have "length (activeSpeakers s1) \<le> length (janusSpeakersOf (audioSpaceAt w (tick s)))"
      by simp
    from capacity_admitOrQueue [OF s1(1) assms(2) this, of w req] sid True show ?thesis
      by (simp add: handleSpeakerRequest_def then_do_def getAudioSpaceById_def
          record_call_def s1_def Let_def)
  qed
qed

lemma capacity_evictOp:
  "preserved (capacityBound d n)
     (then_do (date_now w) (\<lambda>now_ms c.
        evictExpiredSpeakers w (nullish (speakerMaxDurationMs (decisionOptions c)) 240000)
          now_ms c))"
  by (intro preserved_rules preserved_date_now capacity_evict_dep) simp

lemma withinCapacity_capacityBound:
  assumes "withinCapacity s" and "wholeNumber (nullish (maxSpeakers (decisionOptions s)) 1)"
  shows "of_nat (nat \<lfloor>nullish (maxSpeakers (decisionOptions s)) 1\<rfloor>) =
      nullish (maxSpeakers (decisionOptions s)) 1"
    and "capacityBound (decisionOptions s)
      (nat \<lfloor>nullish (maxSpeakers (decisionOptions s)) 1\<rfloor>) s"
proof -
  define ms where "ms = nullish (maxSpeakers (decisionOptions s)) 1"
  from assms have len: "of_nat (length (activeSpeakers s)) \<le> ms" and whole: "of_int \<lfloor>ms\<rfloor> = ms"
    by (simp_all add: withinCapacity_def wholeNumber_def ms_def)
  have "(0 :: rat) \<le> of_nat (length (activeSpeakers s))" by simp
  from this len have "0 \<le> ms" by (rule order_trans)
  then have "0 \<le> \<lfloor>ms\<rfloor>" by simp
  then have "(of_nat (nat \<lfloor>ms\<rfloor>) :: rat) = of_int \<lfloor>ms\<rfloor>" by simp
  with whole have n: "(of_nat (nat \<lfloor>ms\<rfloor>) :: rat) = ms" by simp
  have "(of_nat (length (activeSpeakers s)) :: rat) \<le> of_nat (nat \<lfloor>ms\<rfloor>)"
    unfolding n by (rule len)
  then have "length (activeSpeakers s) \<le> nat \<lfloor>ms\<rfloor>" by (simp only: of_nat_le_iff)
  with n show "of_nat (nat \<lfloor>nullish (maxSpeakers (decisionOptions s)) 1\<rfloor>) =
      nullish (maxSpeakers (decisionOptions s)) 1"
    and "capacityBound (decisionOptions s)
      (nat \<lfloor>nullish (maxSpeakers (decisionOptions s)) 1\<rfloor>) s"
    by (simp_all add: capacityBound_def ms_def)
qed

lemma capacityBound_withinCapacity:
  "capacityBound d n s \<Longrightarrow> of_nat n = nullish (maxSpeakers d) 1 \<Longrightarrow>
   withinCapacity s \<and> decisionOptions s = d"
proof -
  assume P: "capacityBound d n s" and n: "of_nat n = nullish (maxSpeakers d) 1"
  from P have "(of_nat (length (activeSpeakers s)) :: rat) \<le> of_nat n"
    by (simp add: capacityBound_def)
  with P n show ?thesis
    by (simp add: withinCapacity_def capacityBound_def)
qed

lemma withinCapacity_apply_op:
  assumes "withinCapacity s" and "wholeNumber (nullish (maxSpeakers (decisionOptions s)) 1)"
    and "roomCoversLocal w x s"
  shows "withinCapacity (apply_op w x s) \<and> decisionOptions (apply_op w x s) = decisionOptions s"
proof -
  define d where "d = decisionOptions s"
  define n where "n = nat \<lfloor>nullish (maxSpeakers d) 1\<rfloor>"
  from withinCapacity_capacityBound [OF assms(1,2)]
  have n: "of_nat n = nullish (maxSpeakers d) 1" and P: "capacityBound d n s"
    by (simp_all add: d_def n_def)
  then have le: "nullish (maxSpeakers d) 1 \<le> of_nat n" by simp
  have "capacityBound d n (apply_op w x s)"
  proof (cases x)
    case (SpeakerRequestEvent req)
    with assms(3) capacity_handleSpeakerRequest [OF P n] show ?thesis
      by (simp add: roomCoversLocal_def)
  qed (use P le in \<open>simp_all add: preservedD [OF capacity_startSpace]
      preservedD [OF capacity_stopSpace] preservedD [OF capacity_joinSpace]
      preservedD [OF capacity_onIdleTimeout] preservedD [OF capacity_manageCurrentSpace]
      preservedD [OF capacity_acceptSpeakersFromQueueIfNeeded]
      preservedD [OF capacity_evictOp] preservedD [OF capacity_kickExtraSpeakers]\<close>)
  from capacityBound_withinCapacity [OF this n] show ?thesis
    by (simp add: d_def)
qed

text \<open>
  Claim C1, as stated, fails, in four ways. (1) \<^verbatim>\<open>handleSpeakerRequest\<close> compares the
  number of speakers the room reports, not the length of \<open>activeSpeakers\<close>, with
  \<open>maxSpeakers\<close>: with the default \<open>maxSpeakers = 1\<close> and a room that reports no speaker at
  both requests, the second request is admitted too and \<open>activeSpeakers\<close> holds two
  entries. (2) A negative \<open>maxSpeakers\<close> in the settings is below the length of the empty
  collection after any operation. (3) With \<open>maxSpeakers = 3/2\<close> a request that arrives
  when the room and \<open>activeSpeakers\<close> both hold one speaker is admitted, since 1 is less than
  3/2, and two exceed 3/2. (4) With two requests whose handlers overlap, both room queries
  see no speaker while \<open>activeSpeakers\<close> is empty, and both requests are admitted with
  \<open>maxSpeakers = 1\<close>.
\<close>

theorem activeSpeakers_exceed_counterexample:
  "withinCapacity (constructor None) \<and>
   activeSpeakers (apply_op quietWorld (SpeakerRequestEvent bob)
      (apply_op quietWorld (SpeakerRequestEvent alice)
        (apply_op quietWorld (StartSpace techChat) (constructor None)))) =
     [\<lparr>userId = ''1001'', sessionUUID = ''uuid-a'', username = ''alice'', startTime = 1008\<rparr>,
      \<lparr>userId = ''1002'', sessionUUID = ''uuid-b'', username = ''bob'', startTime = 1012\<rparr>] \<and>
   nullish (maxSpeakers (decisionOptions (apply_op quietWorld (SpeakerRequestEvent bob)
      (apply_op quietWorld (SpeakerRequestEvent alice)
        (apply_op quietWorld (StartSpace techChat) (constructor None)))))) 1 = 1 \<and>
   \<not> withinCapacity (apply_op quietWorld (SpeakerRequestEvent bob)
      (apply_op quietWorld (SpeakerRequestEvent alice)
        (apply_op quietWorld (StartSpace techChat) (constructor None)))) \<and>
   \<not> withinCapacity (apply_op quietWorld StopSpace (constructor (Some negativeSpeakers))) \<and>
   withinCapacity (constructor (Some fractionalSpeakers)) \<and>
   roomCoversLocalAlong attentiveWorld
     [StartSpace techChat, SpeakerRequestEvent alice, SpeakerRequestEvent bob]
     (constructor (Some fractionalSpeakers)) \<and>
   \<not> withinCapacity (apply_op attentiveWorld (SpeakerRequestEvent bob)
      (apply_op attentiveWorld (SpeakerRequestEvent alice)
        (apply_op attentiveWorld (StartSpace techChat)
          (constructor (Some fractionalSpeakers))))) \<and>
   withinCapacity hostingClient \<and>
   wholeNumber (nullish (maxSpeakers (decisionOptions hostingClient)) 1) \<and>
   activeSpeakers hostingClient = [] \<and>
   janusSpeakersOf (audioSpaceAt attentiveWorld (tick hostingClient)) = [] \<and>
   janusSpeakersOf (audioSpaceAt attentiveWorld (Suc (tick hostingClient))) = [] \<and>
   activeSpeakers (overlappedRequests attentiveWorld alice bob hostingClient) =
     [\<lparr>userId = ''1001'', sessionUUID = ''uuid-a'', username = ''alice'', startTime = 1004\<rparr>,
      \<lparr>userId = ''1002'', sessionUUID = ''uuid-b'', username = ''bob'', startTime = 1007\<rparr>] \<and>
   \<not> withinCapacity
       (overlappedRequests attentiveWorld alice bob hostingClient)"
  by (simp add: withinCapacity_def wholeNumber_def roomCoversLocal_def overlappedRequests_def
      resumeRequest_def
      admitOrQueue_def hostingClient_def constructor_def resolveDecisionOptions_def
      quietWorld_def attentiveWorld_def techChat_def alice_def bob_def negativeSpeakers_def
      zeroSpeakers_def fractionalSpeakers_def
      startSpace_def startBody_def stopSpace_def handleSpeakerRequest_def acceptSpeaker_def
      speakFiller_def getAudioSpaceById_def initialize_def janusSpeakersOf_def
      then_do_def try_catch_def modify_def await_def date_now_def record_call_def
      returns_def throws_def nullish_def)

text \<open>
  Claim C1, amended. Let \<open>maxSpeakers\<close> be a whole number, let \<open>activeSpeakers\<close> hold at
  most \<open>maxSpeakers\<close> entries to begin with, and let the operations run one after another,
  each to its end before the next starts. Then for every such sequence of operations in
  which each speaker request is handled while the room reports at least as many speakers
  as \<open>activeSpeakers\<close> holds, and for all outcomes of the calls to the room,
  \<open>activeSpeakers.length \<le> maxSpeakers\<close> holds after every operation. Admitting from the
  queue, the eviction by duration, the capacity trim, the management tick, stopping,
  starting and joining need no assumption on the room.
\<close>

theorem activeSpeakers_withinCapacity:
  "withinCapacity s \<Longrightarrow> wholeNumber (nullish (maxSpeakers (decisionOptions s)) 1) \<Longrightarrow>
   roomCoversLocalAlong w ops s \<Longrightarrow> list_all withinCapacity (run w ops s)"
proof (induction ops arbitrary: s)
  case Nil
  show ?case by simp
next
  case (Cons x ops)
  from Cons.prems have room: "roomCoversLocal w x s"
    and rest: "roomCoversLocalAlong w ops (apply_op w x s)"
    by simp_all
  from withinCapacity_apply_op [OF Cons.prems(1,2) room]
  have step: "withinCapacity (apply_op w x s)"
    "decisionOptions (apply_op w x s) = decisionOptions s"
    by simp_all
  with Cons.prems(2)
  have "wholeNumber (nullish (maxSpeakers (decisionOptions (apply_op w x s))) 1)"
    by simp
  from Cons.IH [OF step(1) this rest] step(1) show ?case
    by simp
qed

lemmas run_defs =
  constructor_def resolveDecisionOptions_def quietWorld_def
  techChat_def alice_def bob_def
  startSpace_def startBody_def stopSpace_def handleSpeakerRequest_def admitOrQueue_def
  acceptSpeaker_def
  speakFiller_def getAudioSpaceById_def initialize_def janusSpeakersOf_def
  then_do_def try_catch_def modify_def await_def date_now_def record_call_def
  returns_def throws_def nullish_def

text \<open>
  A session with one slot: the first request is admitted, the second arrives when the room
  reports one speaker and is queued, and a management tick follows.
\<close>

theorem activeSpeakers_withinCapacity_witness:
  "withinCapacity (constructor None) \<and>
   wholeNumber (nullish (maxSpeakers (decisionOptions (constructor None))) 1) \<and>
   roomCoversLocalAlong attentiveWorld
     [StartSpace techChat, SpeakerRequestEvent alice, SpeakerRequestEvent bob,
      ManageCurrentSpace] (constructor None) \<and>
   list_all withinCapacity
     (run attentiveWorld
        [StartSpace techChat, SpeakerRequestEvent alice, SpeakerRequestEvent bob,
         ManageCurrentSpace] (constructor None))"
proof -
  have start: "withinCapacity (constructor None)"
    and whole: "wholeNumber (nullish (maxSpeakers (decisionOptions (constructor None))) 1)"
    by (simp_all add: withinCapacity_def wholeNumber_def run_defs)
  have room: "roomCoversLocalAlong attentiveWorld
     [StartSpace techChat, SpeakerRequestEvent alice, SpeakerRequestEvent bob,
      ManageCurrentSpace] (constructor None)"
    by (simp add: roomCoversLocal_def attentiveWorld_def run_defs)
  from activeSpeakers_withinCapacity [OF start whole room] start whole room show ?thesis
    by simp
qed

section \<open>The session markers\<close>

subsection \<open>Properties that the admission engine cannot change\<close>

lemma blind_simps:
  assumes "bookkeepingBlind P"
  shows "P (s\<lparr>trace := tr\<rparr>) = P s" "P (s\<lparr>tick := n\<rparr>) = P s"
    "P (s\<lparr>activeSpeakers := a\<rparr>) = P s" "P (s\<lparr>speakerQueue := q\<rparr>) = P s"
  using assms by (simp_all add: bookkeepingBlind_def)

lemma blind_await: "bookkeepingBlind P \<Longrightarrow> preserved P (await w c)"
  by (rule preserved_await) (simp add: blind_simps)

lemma blind_date_now: "bookkeepingBlind P \<Longrightarrow> preserved P (date_now w)"
  by (rule preserved_date_now) (simp add: blind_simps)

lemma blind_getAudioSpaceById: "bookkeepingBlind P \<Longrightarrow> preserved P (getAudioSpaceById w sid)"
  by (rule preserved_getAudioSpaceById) (simp add: blind_simps)

lemma blind_speakFiller: "bookkeepingBlind P \<Longrightarrow> preserved P (speakFiller w k dl)"
  unfolding speakFiller_def by (rule blind_await)

lemma blind_removeSpeaker: "bookkeepingBlind P \<Longrightarrow> preserved P (removeSpeaker w uid)"
  by (rule preservedI)
     (simp add: removeSpeaker_def try_catch_def await_def record_call_def returns_def
        blind_simps)

lemma blind_acceptSpeaker: "bookkeepingBlind P \<Longrightarrow> preserved P (acceptSpeaker w req)"
  by (rule preservedI)
     (simp add: acceptSpeaker_def try_catch_def then_do_def await_def record_call_def
        date_now_def modify_def returns_def blind_simps)

lemma blind_evictStep:
  assumes "bookkeepingBlind P"
  shows "preserved P (evictStep w maxDur t i)"
proof (rule preservedI)
  fix s assume P: "P s"
  have rm: "preserved P
      (then_do (removeSpeaker w uid) (\<lambda>_.
       then_do (modify (\<lambda>c. c\<lparr>activeSpeakers := splice1 i (activeSpeakers c)\<rparr>)) (\<lambda>_.
       speakFiller w ''SPEAKER_LEFT'' None)))" for uid
    by (intro preserved_rules blind_removeSpeaker blind_speakFiller assms)
       (simp add: blind_simps [OF assms])
  show "P (snd (evictStep w maxDur t i s))"
    using P preservedD [OF rm P]
    by (simp add: evictStep_def Let_def returns_def throws_def)
qed

lemma blind_evictLoop:
  assumes "bookkeepingBlind P"
  shows "preserved P (evictLoop w maxDur t k)"
proof (rule preservedI)
  fix s show "P s \<Longrightarrow> P (snd (evictLoop w maxDur t k s))"
  proof (induction k arbitrary: s)
    case 0
    then show ?case by (simp add: returns_def)
  next
    case (Suc k)
    from preservedD [OF blind_evictStep [OF assms] Suc.prems]
    have "P (snd (evictStep w maxDur t k s))" .
    with Suc.IH show ?case
      by (auto split: prod.splits outcome.splits)
  qed
qed

lemma blind_evict_dep:
  "bookkeepingBlind P \<Longrightarrow> preserved P (\<lambda>c. evictExpiredSpeakers w (g c) t c)"
  by (rule preservedI) (simp add: evictExpiredSpeakers_def preservedD [OF blind_evictLoop])

lemma blind_acceptNext:
  assumes "bookkeepingBlind P"
  shows "preserved P (acceptNext w)"
proof (rule preservedI)
  fix s assume P: "P s"
  have "preserved P
      (then_do (modify (\<lambda>c. c\<lparr>speakerQueue := tl (speakerQueue c)\<rparr>)) (\<lambda>_.
       then_do (speakFiller w ''PRE_ACCEPT'' None) (\<lambda>_. acceptSpeaker w r)))" for r
    by (intro preserved_rules blind_speakFiller blind_acceptSpeaker assms)
       (simp add: blind_simps [OF assms])
  from preservedD [OF this P] P show "P (snd (acceptNext w s))"
    by (simp add: acceptNext_def returns_def split: list.splits)
qed

lemma blind_acceptLoop:
  assumes "bookkeepingBlind P"
  shows "P s \<Longrightarrow> P (snd (acceptLoop w ms s))"
proof (induction w ms s rule: acceptLoop.induct)
  case (1 w ms s)
  show ?case
  proof (cases "length (speakerQueue s) > 0 \<and> of_nat (length (activeSpeakers s)) < ms")
    case False
    with "1.prems" show ?thesis
      by (subst acceptLoop.simps) (auto simp: returns_def)
  next
    case True
    obtain r s' where r: "acceptNext w s = (r, s')" by (cases "acceptNext w s")
    from preservedD [OF blind_acceptNext [OF assms] "1.prems", of w] r
    have s': "P s'" by simp
    show ?thesis
    proof (cases r)
      case (Returns u)
      from "1.IH" [OF True r [symmetric] Returns s']
      show ?thesis
        using True r Returns by (subst acceptLoop.simps) auto
    next
      case (Throws e)
      with True r s' show ?thesis
        by (subst acceptLoop.simps) auto
    qed
  qed
qed

lemma blind_acceptSpeakersFromQueueIfNeeded:
  "bookkeepingBlind P \<Longrightarrow> preserved P (acceptSpeakersFromQueueIfNeeded w)"
  by (rule preservedI) (simp add: acceptSpeakersFromQueueIfNeeded_def blind_acceptLoop)

lemma blind_kickOne: "bookkeepingBlind P \<Longrightarrow> preserved P (kickOne w sp)"
  unfolding kickOne_def
  by (intro preserved_rules blind_removeSpeaker) (simp_all add: Let_def blind_simps)

lemma blind_kickLoop:
  assumes "bookkeepingBlind P"
  shows "preserved P (kickLoop w sps)"
proof (rule preservedI)
  fix s show "P s \<Longrightarrow> P (snd (kickLoop w sps s))"
  proof (induction sps arbitrary: s)
    case Nil
    then show ?case by (simp add: returns_def)
  next
    case (Cons sp sps)
    from preservedD [OF blind_kickOne [OF assms] Cons.prems]
    have "P (snd (kickOne w sp s))" .
    with Cons.IH show ?case
      by (auto split: prod.splits outcome.splits)
  qed
qed

lemma blind_kickExtraSpeakers:
  assumes "bookkeepingBlind P"
  shows "preserved P (kickExtraSpeakers w sps)"
proof (rule preservedI)
  fix s assume P: "P s"
  show "P (snd (kickExtraSpeakers w sps s))"
    using P preservedD [OF blind_kickLoop [OF assms] P]
    by (simp add: kickExtraSpeakers_def returns_def throws_def split: option.splits)
qed

lemma blind_handleSpeakerRequest:
  assumes "bookkeepingBlind P"
  shows "preserved P (handleSpeakerRequest w req)"
proof (rule preservedI)
  fix s assume P: "P s"
  have "preserved P (admitOrQueue w req js)" for js
  proof (rule preservedI)
    fix c assume c: "P c"
    have "preserved P
        (\<lambda>c. if of_nat (length js) < nullish (maxSpeakers (decisionOptions c)) 1
              then then_do (speakFiller w ''PRE_ACCEPT'' None) (\<lambda>_. acceptSpeaker w req) c
              else modify (\<lambda>c'. c'\<lparr>speakerQueue := speakerQueue c' @ [req]\<rparr>) c)"
      by (intro preserved_rules blind_speakFiller blind_acceptSpeaker assms)
         (simp add: blind_simps [OF assms])
    from preservedD [OF this c] show "P (snd (admitOrQueue w req js c))"
      by (simp add: admitOrQueue_def)
  qed
  then have "preserved P (then_do (getAudioSpaceById w sid) (\<lambda>audioSpace.
                 let janusSpeakers = janusSpeakersOf audioSpace
                 in admitOrQueue w req janusSpeakers))" for sid
    unfolding Let_def
    by (intro preserved_rules blind_getAudioSpaceById assms)
  from preservedD [OF this P] P show "P (snd (handleSpeakerRequest w req s))"
    by (simp add: handleSpeakerRequest_def returns_def split: option.splits)
qed

subsection \<open>Identifier and start time while hosting\<close>

lemma blind_hostingDefined: "bookkeepingBlind hostingDefined"
  by (simp add: bookkeepingBlind_def hostingDefined_def)

lemma hosting_stopSpace: "preserved hostingDefined (stopSpace w)"
  by (rule preservedI)
     (simp add: stopSpace_def then_do_def try_catch_def await_def record_call_def
        date_now_def modify_def returns_def hostingDefined_def)

lemma hosting_onIdleTimeout: "preserved hostingDefined (onIdleTimeout w)"
  unfolding onIdleTimeout_def
  by (intro preserved_rules blind_speakFiller blind_hostingDefined hosting_stopSpace)

lemma hosting_manageBody: "preserved hostingDefined (manageBody w sid)"
  unfolding manageBody_def Let_def
  by (intro preserved_rules blind_getAudioSpaceById blind_date_now blind_evict_dep
        blind_acceptSpeakersFromQueueIfNeeded blind_kickExtraSpeakers blind_speakFiller
        hosting_stopSpace blind_hostingDefined)

lemma hosting_manageCurrentSpace: "preserved hostingDefined (manageCurrentSpace w)"
proof (rule preservedI)
  fix s assume P: "hostingDefined s"
  have "preserved hostingDefined (try_catch (manageBody w sid) (\<lambda>err. returns ()))" for sid
    by (intro preserved_rules hosting_manageBody)
  from preservedD [OF this P] P
  show "hostingDefined (snd (manageCurrentSpace w s))"
    by (simp add: manageCurrentSpace_def returns_def split: option.splits)
qed

lemma hosting_startSpace: "hostingDefined (snd (startSpace w config s))"
  by (simp add: startSpace_def startBody_def then_do_def try_catch_def modify_def
      date_now_def initialize_def await_def speakFiller_def record_call_def returns_def
      throws_def hostingDefined_def)

lemma hosting_joinSpace: "preserved hostingDefined (joinSpace w sid)"
proof (rule preservedI)
  fix s assume P: "hostingDefined s"
  have "preserved hostingDefined
     (then_do
             (modify (\<lambda>c. if spaceParticipant c = None
                           then c\<lparr>spaceParticipant := Some SpaceParticipant\<rparr> else c))
             (\<lambda>_ c.
                if spaceParticipant c \<noteq> None then
                  try_catch
                    (then_do (await w (JoinAsListener sid)) (\<lambda>_.
                     then_do (modify (\<lambda>c'. c'\<lparr>spaceStatus := PARTICIPATING\<rparr>)) (\<lambda>_.
                     then_do (requestSpeaker w) (\<lambda>uuid.
                     then_do (negotiateSpeaker w uuid) (\<lambda>_.
                     returns (JoinedSpace sid))))))
                    (\<lambda>error. returns JoinNull) c
                else returns JoinUndefined c))"
    unfolding negotiateSpeaker_def
    by (intro preserved_rules preserved_await preserved_waitForApproval)
       (simp_all add: hostingDefined_def preserved_def requestSpeaker_def record_call_def)
  from preservedD [OF this P] P show "hostingDefined (snd (joinSpace w sid s))"
    by (simp add: joinSpace_def returns_def)
qed

lemma hosting_evictOp:
  "preserved hostingDefined
     (then_do (date_now w) (\<lambda>now_ms c.
        evictExpiredSpeakers w (nullish (speakerMaxDurationMs (decisionOptions c)) 240000)
          now_ms c))"
  by (intro preserved_rules blind_date_now blind_evict_dep blind_hostingDefined)

lemma hostingDefined_apply_op: "hostingDefined s \<Longrightarrow> hostingDefined (apply_op w x s)"
  by (cases x)
     (simp_all add: hosting_startSpace preservedD [OF hosting_stopSpace]
        preservedD [OF hosting_joinSpace] preservedD [OF hosting_onIdleTimeout]
        preservedD [OF hosting_manageCurrentSpace]
        preservedD [OF blind_acceptSpeakersFromQueueIfNeeded [OF blind_hostingDefined]]
        preservedD [OF blind_handleSpeakerRequest [OF blind_hostingDefined]]
        preservedD [OF hosting_evictOp]
        preservedD [OF blind_kickExtraSpeakers [OF blind_hostingDefined]])

lemma hostingDefined_run: "hostingDefined s \<Longrightarrow> list_all hostingDefined (run w ops s)"
  by (induction ops arbitrary: s) (simp_all add: hostingDefined_apply_op)

text \<open>
  Claim C6, as stated, fails in both directions. When \<^verbatim>\<open>initialize\<close> rejects, the status
  reverts to IDLE and \<open>startedAt\<close> stays defined; when \<^verbatim>\<open>sendTweet\<close> rejects, \<open>spaceId\<close> stays
  defined as well. After a join the status is PARTICIPATING and neither \<open>spaceId\<close> nor
  \<open>startedAt\<close> is defined.
\<close>

theorem session_markers_counterexample:
  "spaceStatus (snd (startSpace failingWorld techChat (constructor None))) = IDLE \<and>
   startedAt (snd (startSpace failingWorld techChat (constructor None))) = Some 1000 \<and>
   spaceStatus (snd (startSpace tweetFailsWorld techChat (constructor None))) = IDLE \<and>
   spaceId (snd (startSpace tweetFailsWorld techChat (constructor None))) = Some ''1OdKrXYZ'' \<and>
   startedAt (snd (startSpace tweetFailsWorld techChat (constructor None))) = Some 1000 \<and>
   spaceStatus (snd (joinSpace quietWorld ''1OdKrXYZ'' (constructor None))) = PARTICIPATING \<and>
   spaceId (snd (joinSpace quietWorld ''1OdKrXYZ'' (constructor None))) = None \<and>
   startedAt (snd (joinSpace quietWorld ''1OdKrXYZ'' (constructor None))) = None"
  by (simp add: constructor_def resolveDecisionOptions_def quietWorld_def failingWorld_def
      tweetFailsWorld_def techChat_def startSpace_def startBody_def joinSpace_def
      requestSpeaker_def negotiateSpeaker_def waitForApproval_def approvalRace_result
      speakFiller_def initialize_def then_do_def try_catch_def modify_def await_def
      date_now_def record_call_def returns_def throws_def nullish_def)

text \<open>
  Claim C6, amended. After every operation of every sequence of operations of a new
  client, a status of HOSTING implies that \<open>spaceId\<close>, \<open>startedAt\<close> and the room handle are
  defined; a \<^verbatim>\<open>startSpace\<close> that returns leaves the status HOSTING with both defined; a
  \<^verbatim>\<open>stopSpace\<close> that passes its guard leaves the status IDLE with both undefined; and
  \<^verbatim>\<open>joinSpace\<close>, which may set the status to PARTICIPATING, never writes \<open>spaceId\<close> or
  \<open>startedAt\<close>.
\<close>

theorem hosting_markers_defined:
  "list_all hostingDefined (run w ops (constructor settings)) \<and>
   (fst (startSpace w config s) = Returns () \<longrightarrow>
      spaceStatus (snd (startSpace w config s)) = HOSTING \<and>
      spaceId (snd (startSpace w config s)) \<noteq> None \<and>
      startedAt (snd (startSpace w config s)) \<noteq> None) \<and>
   (currentSpace s \<noteq> None \<and> spaceStatus s \<noteq> IDLE \<longrightarrow>
      spaceStatus (snd (stopSpace w s)) = IDLE \<and>
      spaceId (snd (stopSpace w s)) = None \<and>
      startedAt (snd (stopSpace w s)) = None) \<and>
   spaceId (snd (joinSpace w sid s)) = spaceId s \<and>
   startedAt (snd (joinSpace w sid s)) = startedAt s"
proof -
  have "hostingDefined (constructor settings)"
    by (simp add: hostingDefined_def constructor_def)
  then have run: "list_all hostingDefined (run w ops (constructor settings))"
    by (rule hostingDefined_run)
  have start: "fst (startSpace w config s) = Returns () \<longrightarrow>
      spaceStatus (snd (startSpace w config s)) = HOSTING \<and>
      spaceId (snd (startSpace w config s)) \<noteq> None \<and>
      startedAt (snd (startSpace w config s)) \<noteq> None"
    by (simp add: startSpace_def startBody_def then_do_def try_catch_def modify_def
      date_now_def initialize_def await_def speakFiller_def record_call_def returns_def
      throws_def)
  have stop: "currentSpace s \<noteq> None \<and> spaceStatus s \<noteq> IDLE \<longrightarrow>
      spaceStatus (snd (stopSpace w s)) = IDLE \<and>
      spaceId (snd (stopSpace w s)) = None \<and>
      startedAt (snd (stopSpace w s)) = None"
    by (auto simp: stopSpace_def then_do_def try_catch_def await_def record_call_def
        date_now_def modify_def returns_def)
  have "preserved (\<lambda>c. spaceId c = spaceId s \<and> startedAt c = startedAt s) (then_do
             (modify (\<lambda>c. if spaceParticipant c = None
                           then c\<lparr>spaceParticipant := Some SpaceParticipant\<rparr> else c))
             (\<lambda>_ c.
                if spaceParticipant c \<noteq> None then
                  try_catch
                    (then_do (await w (JoinAsListener sid)) (\<lambda>_.
                     then_do (modify (\<lambda>c'. c'\<lparr>spaceStatus := PARTICIPATING\<rparr>)) (\<lambda>_.
                     then_do (requestSpeaker w) (\<lambda>uuid.
                     then_do (negotiateSpeaker w uuid) (\<lambda>_.
                     returns (JoinedSpace sid))))))
                    (\<lambda>error. returns JoinNull) c
                else returns JoinUndefined c))"
    unfolding negotiateSpeaker_def
    by (intro preserved_rules preserved_await preserved_waitForApproval)
       (simp_all add: preserved_def requestSpeaker_def record_call_def)
  from preservedD [OF this, of s]
  have join: "spaceId (snd (joinSpace w sid s)) = spaceId s \<and>
      startedAt (snd (joinSpace w sid s)) = startedAt s"
    by (simp add: joinSpace_def returns_def)
  from run start stop join show ?thesis by blast
qed

theorem hosting_markers_defined_witness:
  "list_all hostingDefined
     (run quietWorld [StartSpace techChat, SpeakerRequestEvent alice, StopSpace,
        JoinSpace ''1OdKrXYZ''] (constructor None)) \<and>
   fst (startSpace quietWorld techChat (constructor None)) = Returns () \<and>
   spaceStatus (snd (startSpace quietWorld techChat (constructor None))) = HOSTING \<and>
   spaceId (snd (startSpace quietWorld techChat (constructor None))) = Some ''1OdKrXYZ'' \<and>
   startedAt (snd (startSpace quietWorld techChat (constructor None))) = Some 1000 \<and>
   currentSpace hostingClient \<noteq> None \<and> spaceStatus hostingClient \<noteq> IDLE \<and>
   spaceStatus (snd (stopSpace quietWorld hostingClient)) = IDLE \<and>
   spaceId (snd (stopSpace quietWorld hostingClient)) = None \<and>
   startedAt (snd (stopSpace quietWorld hostingClient)) = None"
proof -
  have started: "fst (startSpace quietWorld techChat (constructor None)) = Returns ()"
    "spaceId (snd (startSpace quietWorld techChat (constructor None))) = Some ''1OdKrXYZ''"
    "startedAt (snd (startSpace quietWorld techChat (constructor None))) = Some 1000"
    by (simp_all add: run_defs)
  have hosting: "currentSpace hostingClient \<noteq> None \<and> spaceStatus hostingClient \<noteq> IDLE"
    by (simp add: hostingClient_def constructor_def)
  from hosting_markers_defined [of quietWorld
      "[StartSpace techChat, SpeakerRequestEvent alice, StopSpace, JoinSpace ''1OdKrXYZ'']"
      None techChat "constructor None"]
    hosting_markers_defined [of quietWorld "[]" None techChat hostingClient]
    started hosting
  show ?thesis by simp
qed

section \<open>The cooldown between sessions\<close>

subsection \<open>The end time of the last session is a reading of the clock\<close>

lemma blind_endTimeNonzero: "bookkeepingBlind endTimeNonzero"
  by (simp add: bookkeepingBlind_def endTimeNonzero_def)

lemma cooldown_stopSpace:
  "(\<And>n. now w n \<noteq> 0) \<Longrightarrow> preserved endTimeNonzero (stopSpace w)"
  by (rule preservedI)
     (simp add: stopSpace_def then_do_def try_catch_def await_def record_call_def
        date_now_def modify_def returns_def endTimeNonzero_def)

lemma cooldown_onIdleTimeout:
  "(\<And>n. now w n \<noteq> 0) \<Longrightarrow> preserved endTimeNonzero (onIdleTimeout w)"
  unfolding onIdleTimeout_def
  by (intro preserved_rules blind_speakFiller blind_endTimeNonzero cooldown_stopSpace)

lemma cooldown_manageBody:
  "(\<And>n. now w n \<noteq> 0) \<Longrightarrow> preserved endTimeNonzero (manageBody w sid)"
  unfolding manageBody_def Let_def
  by (intro preserved_rules blind_getAudioSpaceById blind_date_now blind_evict_dep
        blind_acceptSpeakersFromQueueIfNeeded blind_kickExtraSpeakers blind_speakFiller
        cooldown_stopSpace blind_endTimeNonzero)

lemma cooldown_manageCurrentSpace:
  assumes "\<And>n. now w n \<noteq> 0"
  shows "preserved endTimeNonzero (manageCurrentSpace w)"
proof (rule preservedI)
  fix s assume P: "endTimeNonzero s"
  have "preserved endTimeNonzero (try_catch (manageBody w sid) (\<lambda>err. returns ()))" for sid
    by (intro preserved_rules cooldown_manageBody assms)
  from preservedD [OF this P] P
  show "endTimeNonzero (snd (manageCurrentSpace w s))"
    by (simp add: manageCurrentSpace_def returns_def split: option.splits)
qed

lemma cooldown_startSpace: "preserved endTimeNonzero (startSpace w config)"
  unfolding startSpace_def startBody_def speakFiller_def
  by (intro preserved_rules preserved_date_now preserved_await)
     (simp_all add: endTimeNonzero_def record_call_def preserved_def initialize_def await_def)

lemma cooldown_joinSpace: "preserved endTimeNonzero (joinSpace w sid)"
proof (rule preservedI)
  fix s assume P: "endTimeNonzero s"
  have "preserved endTimeNonzero
     (then_do
             (modify (\<lambda>c. if spaceParticipant c = None
                           then c\<lparr>spaceParticipant := Some SpaceParticipant\<rparr> else c))
             (\<lambda>_ c.
                if spaceParticipant c \<noteq> None then
                  try_catch
                    (then_do (await w (JoinAsListener sid)) (\<lambda>_.
                     then_do (modify (\<lambda>c'. c'\<lparr>spaceStatus := PARTICIPATING\<rparr>)) (\<lambda>_.
                     then_do (requestSpeaker w) (\<lambda>uuid.
                     then_do (negotiateSpeaker w uuid) (\<lambda>_.
                     returns (JoinedSpace sid))))))
                    (\<lambda>error. returns JoinNull) c
                else returns JoinUndefined c))"
    unfolding negotiateSpeaker_def
    by (intro preserved_rules preserved_await preserved_waitForApproval)
       (simp_all add: endTimeNonzero_def preserved_def requestSpeaker_def record_call_def)
  from preservedD [OF this P] P show "endTimeNonzero (snd (joinSpace w sid s))"
    by (simp add: joinSpace_def returns_def)
qed

lemma cooldown_evictOp:
  "preserved endTimeNonzero
     (then_do (date_now w) (\<lambda>now_ms c.
        evictExpiredSpeakers w (nullish (speakerMaxDurationMs (decisionOptions c)) 240000)
          now_ms c))"
  by (intro preserved_rules blind_date_now blind_evict_dep blind_endTimeNonzero)

lemma endTimeNonzero_apply_op:
  "(\<And>n. now w n \<noteq> 0) \<Longrightarrow> endTimeNonzero s \<Longrightarrow> endTimeNonzero (apply_op w x s)"
  by (cases x)
     (simp_all add: preservedD [OF cooldown_startSpace] preservedD [OF cooldown_stopSpace]
        preservedD [OF cooldown_joinSpace] preservedD [OF cooldown_onIdleTimeout]
        preservedD [OF cooldown_manageCurrentSpace]
        preservedD [OF blind_acceptSpeakersFromQueueIfNeeded [OF blind_endTimeNonzero]]
        preservedD [OF blind_handleSpeakerRequest [OF blind_endTimeNonzero]]
        preservedD [OF cooldown_evictOp]
        preservedD [OF blind_kickExtraSpeakers [OF blind_endTimeNonzero]])

lemma endTimeNonzero_stateAfter:
  "(\<And>n. now w n \<noteq> 0) \<Longrightarrow> endTimeNonzero s \<Longrightarrow> endTimeNonzero (stateAfter w ops s)"
  by (induction ops arbitrary: s) (simp_all add: endTimeNonzero_apply_op)

text \<open>
  Claim C3. The field \<open>lastSpaceEndedAt\<close> is undefined in the constructor and is written
  only by \<^verbatim>\<open>stopSpace\<close>, with a reading of the clock. Let the clock never read 0
  (\<^verbatim>\<open>Date.now()\<close> counts the milliseconds since 1970), and let \<open>s\<close> be a state that the
  client reaches from its constructor, with any settings, by any sequence of operations.
  Then \<^verbatim>\<open>shouldLaunchSpace\<close> returns false if and only if \<open>lastSpaceEndedAt\<close> is defined and
  the time since then is less than \<open>minIntervalBetweenSpacesMinutes * 60000\<close>; in every
  other case (no end time, the interval reached exactly or exceeded) it returns true. It
  never throws. The test \<^verbatim>\<open>if (this.lastSpaceEndedAt)\<close> is a test of truthiness, which
  differs from a test of definedness only at the end time 0, and no such state holds it.
\<close>

theorem shouldLaunchSpace_cooldown:
  assumes clock: "\<And>n. now w n \<noteq> 0"
    and reached: "s = stateAfter w ops (constructor settings)"
  shows "(fst (shouldLaunchSpace w s) = Returns False) =
     (\<exists>ended. lastSpaceEndedAt s = Some ended \<and>
        now w (tick s) - ended <
          nullish (minIntervalBetweenSpacesMinutes (decisionOptions s)) 60 * 60000) \<and>
   (fst (shouldLaunchSpace w s) = Returns True) =
     (\<not> (\<exists>ended. lastSpaceEndedAt s = Some ended \<and>
        now w (tick s) - ended <
          nullish (minIntervalBetweenSpacesMinutes (decisionOptions s)) 60 * 60000))"
proof -
  have "endTimeNonzero (constructor settings)"
    by (simp add: endTimeNonzero_def constructor_def)
  from endTimeNonzero_stateAfter [OF clock this, of ops] reached
  have "lastSpaceEndedAt s \<noteq> Some 0"
    by (simp add: endTimeNonzero_def)
  then show ?thesis
    by (cases "lastSpaceEndedAt s")
       (auto simp: shouldLaunchSpace_def then_do_def date_now_def truthy_number_def
          returns_def nullish_def Let_def)
qed

text \<open>
  A session is started and stopped; the stop reads the clock at 1006. One millisecond
  before the boundary of the default 60 minutes the launch is refused; at the boundary,
  and with no earlier session, it is allowed.
\<close>

theorem shouldLaunchSpace_cooldown_witness:
  "lastSpaceEndedAt
     (stateAfter (laterWorld 3601005) [StartSpace techChat, StopSpace] (constructor None)) =
     Some 1006 \<and>
   fst (shouldLaunchSpace (laterWorld 3601005)
     (stateAfter (laterWorld 3601005) [StartSpace techChat, StopSpace] (constructor None))) =
     Returns False \<and>
   fst (shouldLaunchSpace (laterWorld 3601006)
     (stateAfter (laterWorld 3601006) [StartSpace techChat, StopSpace] (constructor None))) =
     Returns True \<and>
   fst (shouldLaunchSpace quietWorld (stateAfter quietWorld [] (constructor None))) =
     Returns True"
proof -
  define ended where
    "ended t = stateAfter (laterWorld t) [StartSpace techChat, StopSpace] (constructor None)"
    for t
  have clock: "now (laterWorld 3601005) n \<noteq> 0" "now (laterWorld 3601006) n \<noteq> 0"
    "now quietWorld n \<noteq> 0" for n
    by (simp_all add: laterWorld_def quietWorld_def)
  have st: "lastSpaceEndedAt (ended t) = Some 1006" "tick (ended t) = 7"
    "nullish (minIntervalBetweenSpacesMinutes (decisionOptions (ended t))) 60 = 60"
    "now (laterWorld t) 7 = t" for t
    by (simp_all add: ended_def laterWorld_def constructor_def resolveDecisionOptions_def
        quietWorld_def techChat_def startSpace_def startBody_def stopSpace_def
        speakFiller_def initialize_def then_do_def try_catch_def modify_def await_def
        date_now_def record_call_def returns_def throws_def nullish_def)
  have fresh: "lastSpaceEndedAt (stateAfter quietWorld [] (constructor None)) = None"
    by (simp add: constructor_def)
  from shouldLaunchSpace_cooldown [OF clock(1) ended_def]
    shouldLaunchSpace_cooldown [OF clock(2) ended_def]
    shouldLaunchSpace_cooldown [OF clock(3) refl, of "[]" None]
    st fresh
  show ?thesis
    unfolding ended_def [symmetric] by simp
qed

section \<open>The order of admission from the pending queue\<close>







section \<open>Closing the session from the management tick\<close>














end
